theory Spec2Isabelle
  imports Main "HOL-Library.Word"
begin

section \<open>Values, array buffers and malloc-owned buffers\<close>

text \<open>
  The messaging layer of \<^verbatim>\<open>src/node_messaging.cc\<close> sits between the JavaScript engine
  and the event loop. The engine's objects are modelled by what this file reads and
  writes of them. A JavaScript value is a small tree; an element of an array is
  \<open>None\<close> when reading it raises (\<^verbatim>\<open>transfer_list->Get(context, i)\<close> yields an empty
  \<^verbatim>\<open>MaybeLocal\<close>), and \<open>Some v\<close> otherwise.
\<close>

type_synonym byte = "8 word"
type_synonym bytes = "byte list"
type_synonym ab_ref = nat

datatype JSValue =
    JSUndefined
  | JSNull
  | JSNumber int
  | JSString string
  | JSObject
  | JSArrayBuffer ab_ref
  | JSArray "JSValue option list"

text \<open>
  An \<^verbatim>\<open>ArrayBuffer\<close> object of an isolate: its backing bytes and the three flags the
  code asks for or sets (\<^verbatim>\<open>IsNeuterable\<close>, \<^verbatim>\<open>IsExternal\<close>, and the detached state that
  \<^verbatim>\<open>Neuter\<close> produces). An isolate's heap maps every handle to its object.
\<close>

record ArrayBuffer =
  ab_bytes :: bytes
  ab_neuterable :: bool
  ab_external :: bool
  ab_neutered :: bool

type_synonym Isolate = "ab_ref \<Rightarrow> ArrayBuffer"

definition IsArrayBuffer :: "JSValue \<Rightarrow> bool" where
  "IsArrayBuffer v = (case v of JSArrayBuffer _ \<Rightarrow> True | _ \<Rightarrow> False)"

definition IsNeuterable :: "ArrayBuffer \<Rightarrow> bool" where
  "IsNeuterable ab = ab_neuterable ab"

definition IsExternal :: "ArrayBuffer \<Rightarrow> bool" where
  "IsExternal ab = ab_external ab"

text \<open>
  \<^verbatim>\<open>ab->Externalize()\<close> hands the backing memory to the caller and marks the object
  external; \<^verbatim>\<open>ab->Neuter()\<close> detaches the object, whose byte length becomes 0. Both are
  the engine's. The engine ends the process when \<^verbatim>\<open>Externalize\<close> is called on an object that
  is external already, where \<open>Externalize\<close> below returns what is left of it; the two
  part only on a transfer list that names one transferable buffer twice.
\<close>

definition Externalize :: "ab_ref \<Rightarrow> Isolate \<Rightarrow> bytes \<times> Isolate" where
  "Externalize r isolate = (ab_bytes (isolate r), isolate(r := (isolate r)\<lparr>ab_external := True\<rparr>))"

definition Neuter :: "ab_ref \<Rightarrow> Isolate \<Rightarrow> Isolate" where
  "Neuter r isolate = isolate(r := (isolate r)\<lparr>ab_bytes := [], ab_neutered := True\<rparr>)"

text \<open>
  \<^verbatim>\<open>ArrayBuffer::New(isolate, data, size, kInternalized)\<close>: a new object of the receiving
  isolate that owns the \<open>size\<close> bytes at \<open>data\<close>.
\<close>

definition ArrayBuffer_New_internalized :: "bytes \<Rightarrow> nat \<Rightarrow> ArrayBuffer" where
  "ArrayBuffer_New_internalized d n =
     \<lparr>ab_bytes = take n d, ab_neuterable = True, ab_external = False, ab_neutered = False\<rparr>"

text \<open>
  Modelled from the spec: \<^verbatim>\<open>MallocedBuffer<T>\<close> is declared in \<^verbatim>\<open>util.h\<close>, which is not
  among the sources. The Transferable Buffer of the specification is a pair (pointer,
  length); \<open>release\<close> yields the pointer and leaves the buffer empty; there is no copy.
  The pointer is modelled by the bytes it points to, \<open>None\<close> for the null pointer.
\<close>

record MallocedBuffer =
  buf_data :: "bytes option"
  buf_size :: nat

definition empty_buffer :: MallocedBuffer where
  "empty_buffer = \<lparr>buf_data = None, buf_size = 0\<rparr>"

definition is_empty :: "MallocedBuffer \<Rightarrow> bool" where
  "is_empty b = (buf_data b = None)"

definition release :: "MallocedBuffer \<Rightarrow> bytes option \<times> MallocedBuffer" where
  "release b = (buf_data b, b\<lparr>buf_data := None\<rparr>)"

section \<open>Message\<close>

record Message =
  main_message_buf :: MallocedBuffer
  array_buffer_contents :: "MallocedBuffer list"

definition empty_Message :: Message where
  "empty_Message = \<lparr>main_message_buf = empty_buffer, array_buffer_contents = []\<rparr>"

text \<open>
  Everything that can go wrong in this file. \<open>PendingException\<close> is an exception thrown
  by JavaScript code the engine ran (an accessor of the transfer list);
  \<open>DataCloneError\<close> is what \<^verbatim>\<open>ThrowDataCloneError\<close> raises when the encoder cannot write
  a value; \<open>CHECK_failed\<close> is the process abort of a failed \<^verbatim>\<open>CHECK\<close>;
  \<open>NullDereference\<close> is a method that reads \<^verbatim>\<open>data_->\<close> on a port whose \<^verbatim>\<open>data_\<close>
  is null, which its callers in this file exclude.
\<close>

datatype error =
    ERR_INVALID_TRANSFER_OBJECT
  | ERR_CLOSED_MESSAGE_PORT
  | ERR_MISSING_ARGS
  | ERR_CONSTRUCT_CALL_REQUIRED
  | DataCloneError
  | PendingException
  | CHECK_failed
  | NullDereference

subsection \<open>The engine's encoder and decoder\<close>

text \<open>
  \<^verbatim>\<open>v8::ValueSerializer\<close> and \<^verbatim>\<open>v8::ValueDeserializer\<close> belong to the embedding runtime.
  What this file does with them is modelled: the table filled by
  \<^verbatim>\<open>TransferArrayBuffer(id, ab)\<close>, the output buffer, the header. How a value becomes
  bytes and back is a parameter of the model, the record \<open>V8\<close>: \<open>write_value\<close> reads
  the sender's heap and the transfer table and yields the bytes of the value, or
  \<open>None\<close> when the value cannot be cloned; \<open>read_header\<close> yields the bytes after a
  valid header; \<open>read_value\<close> decodes a value with the transferred buffers at hand.
\<close>

record V8 =
  version_header :: bytes
  write_value :: "Isolate \<Rightarrow> (nat \<times> ab_ref) list \<Rightarrow> JSValue \<Rightarrow> bytes option"
  read_header :: "bytes \<Rightarrow> bytes option"
  read_value :: "(nat \<times> ArrayBuffer) list \<Rightarrow> bytes \<Rightarrow> JSValue option"

record ValueSerializer =
  ser_buffer :: bytes
  ser_transfers :: "(nat \<times> ab_ref) list"

definition new_ValueSerializer :: ValueSerializer where
  "new_ValueSerializer = \<lparr>ser_buffer = [], ser_transfers = []\<rparr>"

definition ser_TransferArrayBuffer :: "nat \<Rightarrow> ab_ref \<Rightarrow> ValueSerializer \<Rightarrow> ValueSerializer" where
  "ser_TransferArrayBuffer i ab s = s\<lparr>ser_transfers := ser_transfers s @ [(i, ab)]\<rparr>"

definition WriteHeader :: "V8 \<Rightarrow> ValueSerializer \<Rightarrow> ValueSerializer" where
  "WriteHeader v8 s = s\<lparr>ser_buffer := ser_buffer s @ version_header v8\<rparr>"

definition WriteValue :: "V8 \<Rightarrow> Isolate \<Rightarrow> JSValue \<Rightarrow> ValueSerializer \<Rightarrow> ValueSerializer option" where
  "WriteValue v8 isolate input s =
     (case write_value v8 isolate (ser_transfers s) input of
        None \<Rightarrow> None
      | Some bs \<Rightarrow> Some (s\<lparr>ser_buffer := ser_buffer s @ bs\<rparr>))"

definition Release :: "ValueSerializer \<Rightarrow> bytes \<times> nat" where
  "Release s = (ser_buffer s, length (ser_buffer s))"

record ValueDeserializer =
  des_data :: "bytes option"
  des_size :: nat
  des_transfers :: "(nat \<times> ArrayBuffer) list"

definition new_ValueDeserializer :: "bytes option \<Rightarrow> nat \<Rightarrow> ValueDeserializer" where
  "new_ValueDeserializer d n = \<lparr>des_data = d, des_size = n, des_transfers = []\<rparr>"

definition des_TransferArrayBuffer :: "nat \<Rightarrow> ArrayBuffer \<Rightarrow> ValueDeserializer \<Rightarrow> ValueDeserializer" where
  "des_TransferArrayBuffer i ab s = s\<lparr>des_transfers := des_transfers s @ [(i, ab)]\<rparr>"

definition des_input :: "ValueDeserializer \<Rightarrow> bytes" where
  "des_input s = (case des_data s of None \<Rightarrow> [] | Some bs \<Rightarrow> take (des_size s) bs)"

definition ReadHeader :: "V8 \<Rightarrow> ValueDeserializer \<Rightarrow> bytes option" where
  "ReadHeader v8 s = read_header v8 (des_input s)"

definition ReadValue :: "V8 \<Rightarrow> ValueDeserializer \<Rightarrow> bytes \<Rightarrow> JSValue option" where
  "ReadValue v8 s rest = read_value v8 (des_transfers s) rest"

subsection \<open>Message::Deserialize\<close>

text \<open>
  The loop of lines 70 to 77: buffer \<open>i\<close> of the message is released, wrapped in a new
  internalized \<^verbatim>\<open>ArrayBuffer\<close> and handed to the decoder under the id \<open>i\<close>. The vector
  keeps its (now empty) elements until \<^verbatim>\<open>clear()\<close>.
\<close>

fun attach_loop ::
  "nat \<Rightarrow> MallocedBuffer list \<Rightarrow> MallocedBuffer list \<times> ValueDeserializer
     \<Rightarrow> MallocedBuffer list \<times> ValueDeserializer" where
  "attach_loop i [] st = st"
| "attach_loop i (b # bs) (released, des) =
     (let (p, b') = release b;
          ab = ArrayBuffer_New_internalized (case p of None \<Rightarrow> [] | Some d \<Rightarrow> d) (buf_size b')
      in attach_loop (Suc i) bs (released @ [b'], des_TransferArrayBuffer i ab des))"

definition Deserialize :: "V8 \<Rightarrow> Message \<Rightarrow> JSValue option \<times> Message \<times> ValueDeserializer" where
  "Deserialize v8 msg =
     (let des0 = new_ValueDeserializer (buf_data (main_message_buf msg))
                   (buf_size (main_message_buf msg));
          (released, des1) = attach_loop 0 (array_buffer_contents msg) ([], des0);
          msg1 = msg\<lparr>array_buffer_contents := released\<rparr>;
          msg2 = msg1\<lparr>array_buffer_contents := []\<rparr>
      in case ReadHeader v8 des1 of
           None \<Rightarrow> (None, msg2, des1)
         | Some rest \<Rightarrow> (ReadValue v8 des1 rest, msg2, des1))"

subsection \<open>Message::Serialize\<close>

text \<open>
  The loop over the transfer list, lines 130 to 151. Its state is the vector
  \<^verbatim>\<open>array_buffers\<close> and the encoder; it stops at the first entry that cannot be read or
  is not an \<^verbatim>\<open>ArrayBuffer\<close>. The ids are \<^verbatim>\<open>uint32_t\<close> in the source and bounded by the
  length of a JavaScript array, so they never wrap; they are natural numbers here.
\<close>

fun transfer_loop ::
  "Isolate \<Rightarrow> JSValue option list \<Rightarrow> ab_ref list \<times> ValueSerializer
     \<Rightarrow> error + (ab_ref list \<times> ValueSerializer)" where
  "transfer_loop isolate [] st = Inr st"
| "transfer_loop isolate (None # es) st = Inl PendingException"
| "transfer_loop isolate (Some entry # es) (array_buffers, ser) =
     (case entry of
        JSArrayBuffer ab \<Rightarrow>
          if \<not> IsNeuterable (isolate ab) \<or> IsExternal (isolate ab)
          then transfer_loop isolate es (array_buffers, ser)
          else transfer_loop isolate es
                 (array_buffers @ [ab], ser_TransferArrayBuffer (length array_buffers) ab ser)
      | _ \<Rightarrow> Inl ERR_INVALID_TRANSFER_OBJECT)"

text \<open>The loop of lines 159 to 168: externalize, neuter, keep the contents.\<close>

fun externalize_loop :: "ab_ref list \<Rightarrow> Isolate \<times> Message \<Rightarrow> Isolate \<times> Message" where
  "externalize_loop [] st = st"
| "externalize_loop (ab # rest) (isolate, msg) =
     (let (contents, isolate1) = Externalize ab isolate;
          isolate2 = Neuter ab isolate1
      in externalize_loop rest
           (isolate2, msg\<lparr>array_buffer_contents := array_buffer_contents msg @
                      [\<lparr>buf_data = Some contents, buf_size = length contents\<rparr>]\<rparr>))"

text \<open>
  Lines 126 to 152: the loop runs when the second argument is an array, and on anything
  else no buffer is transferred.
\<close>

definition read_transfer_list ::
  "Isolate \<Rightarrow> JSValue \<Rightarrow> error + (ab_ref list \<times> ValueSerializer)" where
  "read_transfer_list isolate transfer_list_v =
     (case transfer_list_v of
        JSArray transfer_list \<Rightarrow> transfer_loop isolate transfer_list ([], new_ValueSerializer)
      | _ \<Rightarrow> Inr ([], new_ValueSerializer))"

definition Serialize ::
  "V8 \<Rightarrow> Isolate \<Rightarrow> Message \<Rightarrow> JSValue \<Rightarrow> JSValue \<Rightarrow> (error + bool) \<times> Isolate \<times> Message" where
  "Serialize v8 isolate msg input transfer_list_v =
     (if \<not> is_empty (main_message_buf msg) then (Inl CHECK_failed, isolate, msg)
      else
        case read_transfer_list isolate transfer_list_v of
          Inl e \<Rightarrow> (Inl e, isolate, msg)
        | Inr (array_buffers, ser) \<Rightarrow>
            (case WriteValue v8 isolate input (WriteHeader v8 ser) of
               None \<Rightarrow> (Inl DataCloneError, isolate, msg)
             | Some ser' \<Rightarrow>
                 (let (isolate', msg') = externalize_loop array_buffers (isolate, msg);
                      (d, n) = Release ser'
                  in (Inr True, isolate', msg'\<lparr>main_message_buf := \<lparr>buf_data = Some d, buf_size = n\<rparr>\<rparr>))))"

section \<open>MessagePortData and MessagePort\<close>

text \<open>
  Ports and their shared data live in a store. \<^verbatim>\<open>std::unique_ptr<MessagePortData> data_\<close>,
  \<^verbatim>\<open>MessagePort* owner_\<close> and \<^verbatim>\<open>MessagePortData* sibling_\<close> are optional references
  into it; \<^verbatim>\<open>std::shared_ptr<Mutex> sibling_mutex_\<close> is the identity of a mutex, and
  \<^verbatim>\<open>std::make_shared<Mutex>()\<close> takes the next unused identity. Each operation runs as one
  step: the critical sections of \<^verbatim>\<open>mutex_\<close> and of the sibling mutex are the steps, and
  which thread holds which lock is not part of the model.

  Modelled from the spec: the field declarations are in \<^verbatim>\<open>node_messaging.h\<close>, which is
  not among the sources. A PortData has an incoming queue, a receive-enabled flag that
  is initially false, a nullable owner back-reference, a nullable sibling pointer and
  a sibling mutex of its own until it is entangled.
\<close>

type_synonym port_ref = nat
type_synonym data_ref = nat
type_synonym mutex_ref = nat

record MessagePortData =
  incoming_messages :: "Message list"
  receiving_messages :: bool
  owner :: "port_ref option"
  sibling :: "data_ref option"
  sibling_mutex :: mutex_ref

text \<open>
  A port: its \<^verbatim>\<open>data_\<close>, the number of \<^verbatim>\<open>uv_async_send\<close> calls made on its handle, and
  whether the handle has been closed.
\<close>

record MessagePort =
  data :: "data_ref option"
  async_sends :: nat
  handle_closed :: bool

record Heap =
  port_datas :: "data_ref \<Rightarrow> MessagePortData"
  ports :: "port_ref \<Rightarrow> MessagePort"
  mutexes :: nat
  next_data :: nat
  next_port :: nat

definition update_data :: "data_ref \<Rightarrow> (MessagePortData \<Rightarrow> MessagePortData) \<Rightarrow> Heap \<Rightarrow> Heap" where
  "update_data d f h = h\<lparr>port_datas := (port_datas h)(d := f (port_datas h d))\<rparr>"

definition update_port :: "port_ref \<Rightarrow> (MessagePort \<Rightarrow> MessagePort) \<Rightarrow> Heap \<Rightarrow> Heap" where
  "update_port p f h = h\<lparr>ports := (ports h)(p := f (ports h p))\<rparr>"

text \<open>
  \<^verbatim>\<open>TriggerAsync\<close>: \<^verbatim>\<open>uv_async_send\<close> on a live handle returns 0, so the \<^verbatim>\<open>CHECK_EQ\<close> around
  it passes.
\<close>

definition TriggerAsync :: "port_ref \<Rightarrow> Heap \<Rightarrow> Heap" where
  "TriggerAsync p h = update_port p (\<lambda>port. port\<lparr>async_sends := Suc (async_sends port)\<rparr>) h"

definition new_MessagePortData :: "port_ref option \<Rightarrow> Heap \<Rightarrow> data_ref \<times> Heap" where
  "new_MessagePortData own h =
     (let d = next_data h
      in (d, h\<lparr>port_datas := (port_datas h)
                  (d := \<lparr>incoming_messages = [], receiving_messages = False, owner = own,
                         sibling = None, sibling_mutex = mutexes h\<rparr>),
                mutexes := Suc (mutexes h),
                next_data := Suc d\<rparr>))"

definition data_AddToIncomingQueue :: "data_ref \<Rightarrow> Message \<Rightarrow> Heap \<Rightarrow> Heap" where
  "data_AddToIncomingQueue d message h =
     (let h1 = update_data d
                 (\<lambda>pd. pd\<lparr>incoming_messages := incoming_messages pd @ [message]\<rparr>) h
      in case owner (port_datas h1 d) of
           None \<Rightarrow> h1
         | Some p \<Rightarrow> TriggerAsync p h1)"

definition data_IsSiblingClosed :: "data_ref \<Rightarrow> Heap \<Rightarrow> bool" where
  "data_IsSiblingClosed d h = (sibling (port_datas h d) = None)"

definition data_Entangle :: "data_ref \<Rightarrow> data_ref \<Rightarrow> Heap \<Rightarrow> error + Heap" where
  "data_Entangle a b h =
     (if sibling (port_datas h a) \<noteq> None then Inl CHECK_failed
      else if sibling (port_datas h b) \<noteq> None then Inl CHECK_failed
      else
        let h1 = update_data a (\<lambda>pd. pd\<lparr>sibling := Some b\<rparr>) h;
            h2 = update_data b (\<lambda>pd. pd\<lparr>sibling := Some a\<rparr>) h1
        in Inr (update_data a (\<lambda>pd. pd\<lparr>sibling_mutex := sibling_mutex (port_datas h2 b)\<rparr>) h2))"

definition PingOwnerAfterDisentanglement :: "data_ref \<Rightarrow> Heap \<Rightarrow> Heap" where
  "PingOwnerAfterDisentanglement d h =
     (case owner (port_datas h d) of
        None \<Rightarrow> h
      | Some p \<Rightarrow> TriggerAsync p h)"

definition Disentangle :: "data_ref \<Rightarrow> Heap \<Rightarrow> Heap" where
  "Disentangle self h =
     (let h1 = update_data self (\<lambda>pd. pd\<lparr>sibling_mutex := mutexes h\<rparr>)
                 (h\<lparr>mutexes := Suc (mutexes h)\<rparr>);
          sibling' = sibling (port_datas h1 self);
          h2 = (case sibling' of
                  None \<Rightarrow> h1
                | Some s \<Rightarrow>
                    update_data self (\<lambda>pd. pd\<lparr>sibling := None\<rparr>)
                      (update_data s (\<lambda>pd. pd\<lparr>sibling := None\<rparr>) h1));
          h3 = PingOwnerAfterDisentanglement self h2
      in case sibling' of
           None \<Rightarrow> h3
         | Some s \<Rightarrow> PingOwnerAfterDisentanglement s h3)"

text \<open>
  \<^verbatim>\<open>~MessagePortData\<close>: the owner must be gone, then the data disentangles itself; the
  queued messages are freed with the object.
\<close>

definition destroy_MessagePortData :: "data_ref \<Rightarrow> Heap \<Rightarrow> error + Heap" where
  "destroy_MessagePortData d h =
     (if owner (port_datas h d) \<noteq> None then Inl CHECK_failed
      else Inr (Disentangle d h))"

subsection \<open>The port's methods\<close>

text \<open>
  \<^verbatim>\<open>new MessagePort(env, context, wrap)\<close>: a new handle with a new PortData that it owns.
  The \<^verbatim>\<open>oninit\<close> hook is user code; user code is modelled by what it returns to this
  file, and this file ignores what \<^verbatim>\<open>oninit\<close> returns.
\<close>

definition new_MessagePort :: "Heap \<Rightarrow> port_ref \<times> Heap" where
  "new_MessagePort h =
     (let p = next_port h;
          (d, h1) = new_MessagePortData (Some p) (h\<lparr>next_port := Suc p\<rparr>)
      in (p, h1\<lparr>ports := (ports h1)
                   (p := \<lparr>data = Some d, async_sends = 0, handle_closed = False\<rparr>)\<rparr>))"

definition OnClose :: "port_ref \<Rightarrow> Heap \<Rightarrow> error + Heap" where
  "OnClose p h =
     (case data (ports h p) of
        None \<Rightarrow> Inr h
      | Some d \<Rightarrow>
          (let h1 = update_data d (\<lambda>pd. pd\<lparr>owner := None\<rparr>) h;
               h2 = Disentangle d h1
           in case destroy_MessagePortData d h2 of
                Inl e \<Rightarrow> Inl e
              | Inr h3 \<Rightarrow> Inr (update_port p (\<lambda>port. port\<lparr>data := None\<rparr>) h3)))"

text \<open>
  Modelled from the spec: \<^verbatim>\<open>HandleWrap::Close\<close> is in \<^verbatim>\<open>handle_wrap.cc\<close>, which is not
  among the sources. Close releases the async handle, nulls the owner back-reference,
  disentangles the PortData and drops it, which is what \<^verbatim>\<open>OnClose\<close> does; it is
  idempotent.
\<close>

definition Close :: "port_ref \<Rightarrow> Heap \<Rightarrow> error + Heap" where
  "Close p h =
     (if handle_closed (ports h p) then Inr h
      else OnClose p (update_port p (\<lambda>port. port\<lparr>handle_closed := True\<rparr>) h))"

definition Detach :: "port_ref \<Rightarrow> Heap \<Rightarrow> error + (data_ref \<times> Heap)" where
  "Detach p h =
     (case data (ports h p) of
        None \<Rightarrow> Inl NullDereference
      | Some d \<Rightarrow>
          Inr (d, update_port p (\<lambda>port. port\<lparr>data := None\<rparr>)
                    (update_data d (\<lambda>pd. pd\<lparr>owner := None\<rparr>) h)))"

definition Start :: "port_ref \<Rightarrow> Heap \<Rightarrow> error + Heap" where
  "Start p h =
     (case data (ports h p) of
        None \<Rightarrow> Inl NullDereference
      | Some d \<Rightarrow>
          (let h1 = update_data d (\<lambda>pd. pd\<lparr>receiving_messages := True\<rparr>) h
           in if incoming_messages (port_datas h1 d) \<noteq> [] then Inr (TriggerAsync p h1)
              else Inr h1))"

definition Stop :: "port_ref \<Rightarrow> Heap \<Rightarrow> error + Heap" where
  "Stop p h =
     (case data (ports h p) of
        None \<Rightarrow> Inl NullDereference
      | Some d \<Rightarrow> Inr (update_data d (\<lambda>pd. pd\<lparr>receiving_messages := False\<rparr>) h))"

definition Send :: "port_ref \<Rightarrow> Message \<Rightarrow> Heap \<Rightarrow> error + Heap" where
  "Send p message h =
     (case data (ports h p) of
        None \<Rightarrow> Inl NullDereference
      | Some d \<Rightarrow>
          (case sibling (port_datas h d) of
             None \<Rightarrow> Inr h
           | Some s \<Rightarrow> Inr (data_AddToIncomingQueue s message h)))"

text \<open>
  The methods bound to JavaScript take \<^verbatim>\<open>FunctionCallbackInfo\<close>: the receiver
  \<^verbatim>\<open>args.This()\<close>, which \<^verbatim>\<open>ASSIGN_OR_RETURN_UNWRAP\<close> turns into a port or returns, and the
  arguments, where \<^verbatim>\<open>args[i]\<close> beyond the arguments given is \<^verbatim>\<open>undefined\<close>. They return
  the exception they leave pending, if any, and the sender's heap and the store.
\<close>

definition arg :: "JSValue list \<Rightarrow> nat \<Rightarrow> JSValue" where
  "arg args i = (if i < length args then args ! i else JSUndefined)"

definition Send_args ::
  "V8 \<Rightarrow> port_ref \<Rightarrow> JSValue list \<Rightarrow> Isolate \<times> Heap \<Rightarrow> error option \<times> Isolate \<times> Heap" where
  "Send_args v8 p args st =
     (case st of (isolate, h) \<Rightarrow>
        (case Serialize v8 isolate empty_Message (arg args 0) (arg args 1) of
           (Inl e, isolate', msg) \<Rightarrow> (Some e, isolate', h)
         | (Inr ok, isolate', msg) \<Rightarrow>
             (case Send p msg h of
                Inl e \<Rightarrow> (Some e, isolate', h)
              | Inr h' \<Rightarrow> (None, isolate', h'))))"

definition PostMessage ::
  "V8 \<Rightarrow> port_ref option \<Rightarrow> JSValue list \<Rightarrow> Isolate \<times> Heap \<Rightarrow> error option \<times> Isolate \<times> Heap" where
  "PostMessage v8 this args st =
     (case this of
        None \<Rightarrow> (None, st)
      | Some port \<Rightarrow>
          if data (ports (snd st) port) = None then (Some ERR_CLOSED_MESSAGE_PORT, st)
          else if length args = 0 then (Some ERR_MISSING_ARGS, st)
          else Send_args v8 port args st)"

definition Start_args :: "port_ref option \<Rightarrow> Heap \<Rightarrow> error option \<times> Heap" where
  "Start_args this h =
     (case this of
        None \<Rightarrow> (None, h)
      | Some port \<Rightarrow>
          if data (ports h port) = None then (Some ERR_CLOSED_MESSAGE_PORT, h)
          else (case Start port h of Inl e \<Rightarrow> (Some e, h) | Inr h' \<Rightarrow> (None, h')))"

definition Stop_args :: "port_ref option \<Rightarrow> Heap \<Rightarrow> error option \<times> Heap" where
  "Stop_args this h =
     (case this of
        None \<Rightarrow> (None, h)
      | Some port \<Rightarrow>
          if data (ports h port) = None then (Some ERR_CLOSED_MESSAGE_PORT, h)
          else (case Stop port h of Inl e \<Rightarrow> (Some e, h) | Inr h' \<Rightarrow> (None, h')))"

subsection \<open>Adopting a PortData, entangling, the channel\<close>

text \<open>
  What the embedding runtime answers when this file asks: whether user code may run
  (\<^verbatim>\<open>env()->can_call_into_js()\<close>), whether the port's object has an \<^verbatim>\<open>onmessage\<close>
  property, whether \<^verbatim>\<open>MakeCallback\<close> on a value returns a result (\<open>False\<close>: the callback
  threw), and whether the port constructor can be fetched and instantiated. User code
  that runs inside a callback is modelled by this answer alone.
\<close>

record Environment =
  can_call_into_js :: bool
  has_onmessage :: bool
  MakeCallback_ok :: "JSValue \<Rightarrow> bool"
  constructor_ok :: bool

definition New_args :: "bool \<Rightarrow> Heap \<Rightarrow> error + (port_ref \<times> Heap)" where
  "New_args IsConstructCall h =
     (if \<not> IsConstructCall then Inl ERR_CONSTRUCT_CALL_REQUIRED
      else Inr (new_MessagePort h))"

text \<open>
  \<^verbatim>\<open>MessagePort::New(env, context, data)\<close>, lines 291 to 316. The result is the new port,
  or \<open>None\<close> for \<^verbatim>\<open>nullptr\<close>. The PortData is passed by value as a \<^verbatim>\<open>std::unique_ptr\<close>: when the
  function returns \<^verbatim>\<open>nullptr\<close> before line 309 has moved it into the port, the PortData is
  destroyed with the parameter. The PortData that \<^verbatim>\<open>port->Detach()\<close> returns is a temporary
  and is destroyed at once.
\<close>

definition New_data ::
  "Environment \<Rightarrow> data_ref option \<Rightarrow> Heap \<Rightarrow> error + (port_ref option \<times> Heap)" where
  "New_data env data' h =
     (if \<not> constructor_ok env
      then (case data' of
              None \<Rightarrow> Inr (None, h)
            | Some d \<Rightarrow>
                (case destroy_MessagePortData d h of
                   Inl e \<Rightarrow> Inl e
                 | Inr h' \<Rightarrow> Inr (None, h')))
      else
        case New_args True h of
          Inl e \<Rightarrow> Inl e
        | Inr (port, h1) \<Rightarrow>
            (case data' of
               None \<Rightarrow> Inr (Some port, h1)
             | Some d \<Rightarrow>
                 (case Detach port h1 of
                    Inl e \<Rightarrow> Inl e
                  | Inr (old, h2) \<Rightarrow>
                      (case destroy_MessagePortData old h2 of
                         Inl e \<Rightarrow> Inl e
                       | Inr h3 \<Rightarrow>
                           (let h4 = update_port port (\<lambda>x. x\<lparr>data := Some d\<rparr>) h3;
                                h5 = update_data d (\<lambda>pd. pd\<lparr>owner := Some port\<rparr>) h4
                            in Inr (Some port, TriggerAsync port h5))))))"

definition Entangle :: "port_ref \<Rightarrow> port_ref \<Rightarrow> Heap \<Rightarrow> error + Heap" where
  "Entangle a b h =
     (case (data (ports h a), data (ports h b)) of
        (Some da, Some db) \<Rightarrow> data_Entangle da db h
      | _ \<Rightarrow> Inl NullDereference)"

definition MessageChannel ::
  "Environment \<Rightarrow> bool \<Rightarrow> Heap \<Rightarrow> error + ((port_ref \<times> port_ref) \<times> Heap)" where
  "MessageChannel env IsConstructCall h =
     (if \<not> IsConstructCall then Inl ERR_CONSTRUCT_CALL_REQUIRED
      else
        case New_data env None h of
          Inl e \<Rightarrow> Inl e
        | Inr (None, h1) \<Rightarrow> Inl NullDereference
        | Inr (Some port1, h1) \<Rightarrow>
            (case New_data env None h1 of
               Inl e \<Rightarrow> Inl e
             | Inr (None, h2) \<Rightarrow> Inl NullDereference
             | Inr (Some port2, h2) \<Rightarrow>
                 (case Entangle port1 port2 h2 of
                    Inl e \<Rightarrow> Inl e
                  | Inr h3 \<Rightarrow> Inr ((port1, port2), h3))))"

subsection \<open>The delivery loop, MessagePort::OnMessage\<close>

text \<open>
  One pass through the body of \<^verbatim>\<open>while (data_)\<close>, lines 326 to 361. The state is the
  store and the values \<^verbatim>\<open>onmessage\<close> has been called with so far. \<open>Break\<close> leaves the
  loop for the test of line 363 (the loop condition failing does the same);
  \<open>Return\<close> is the \<^verbatim>\<open>return\<close> of line 358; \<open>Continue\<close> goes round again.
\<close>

datatype control = Continue | Break | Return

definition OnMessage_body ::
  "V8 \<Rightarrow> Environment \<Rightarrow> port_ref \<Rightarrow> Heap \<times> JSValue list \<Rightarrow> control \<times> Heap \<times> JSValue list" where
  "OnMessage_body v8 env p st =
     (case st of (h, calls) \<Rightarrow>
        (case data (ports h p) of
           None \<Rightarrow> (Break, h, calls)
         | Some d \<Rightarrow>
             if \<not> receiving_messages (port_datas h d) then (Break, h, calls)
             else
               (case incoming_messages (port_datas h d) of
                  [] \<Rightarrow> (Break, h, calls)
                | received # queue \<Rightarrow>
                    (let h1 = update_data d (\<lambda>pd. pd\<lparr>incoming_messages := queue\<rparr>) h;
                         reschedule = (if data (ports h1 p) \<noteq> None then TriggerAsync p h1 else h1)
                     in if \<not> can_call_into_js env then (Continue, h1, calls)
                        else
                          (case fst (Deserialize v8 received) of
                             None \<Rightarrow> (Return, reschedule, calls)
                           | Some v \<Rightarrow>
                               if \<not> has_onmessage env then (Return, reschedule, calls)
                               else if \<not> MakeCallback_ok env v
                               then (Return, reschedule, calls @ [v])
                               else (Continue, h1, calls @ [v]))))))"

definition queue_length :: "port_ref \<Rightarrow> Heap \<Rightarrow> nat" where
  "queue_length p h =
     (case data (ports h p) of
        None \<Rightarrow> 0
      | Some d \<Rightarrow> length (incoming_messages (port_datas h d)))"

function OnMessage_loop ::
  "V8 \<Rightarrow> Environment \<Rightarrow> port_ref \<Rightarrow> Heap \<times> JSValue list \<Rightarrow> control \<times> Heap \<times> JSValue list" where
  "OnMessage_loop v8 env p st =
     (case OnMessage_body v8 env p st of
        (Continue, st') \<Rightarrow> OnMessage_loop v8 env p st'
      | (Break, st') \<Rightarrow> (Break, st')
      | (Return, st') \<Rightarrow> (Return, st'))"
  by pat_completeness auto
termination
proof (relation "measure (\<lambda>(v8, env, p, st). queue_length p (fst st))")
  show "wf (measure (\<lambda>(v8, env, p, st). queue_length p (fst st)))"
    by simp
next
  fix v8 env p and st st' :: "Heap \<times> JSValue list" and c
  assume body: "(c, st') = OnMessage_body v8 env p st" and continue: "c = Continue"
  obtain h calls where st: "st = (h, calls)"
    by (cases st)
  obtain h' calls' where st': "st' = (h', calls')"
    by (cases st')
  from body continue have "OnMessage_body v8 env p (h, calls) = (Continue, h', calls')"
    by (simp add: st st')
  then have "queue_length p h' < queue_length p h"
    by (auto simp: OnMessage_body_def queue_length_def update_data_def Let_def
        split: option.splits if_splits list.splits)
  then show "((v8, env, p, st'), (v8, env, p, st))
          \<in> measure (\<lambda>(v8, env, p, st). queue_length p (fst st))"
    by (simp add: st st')
qed

declare OnMessage_loop.simps [simp del]

definition OnMessage ::
  "V8 \<Rightarrow> Environment \<Rightarrow> port_ref \<Rightarrow> Heap \<Rightarrow> error + (Heap \<times> JSValue list)" where
  "OnMessage v8 env p h =
     (case OnMessage_loop v8 env p (h, []) of
        (Return, h', calls) \<Rightarrow> Inr (h', calls)
      | (_, h', calls) \<Rightarrow>
          (case data (ports h' p) of
             None \<Rightarrow> Inr (h', calls)
           | Some d \<Rightarrow>
               if data_IsSiblingClosed d h'
               then (case Close p h' of
                       Inl e \<Rightarrow> Inl e
                     | Inr h'' \<Rightarrow> Inr (h'', calls))
               else Inr (h', calls)))"

section \<open>The transfer list, in the words of the specification\<close>

text \<open>
  The specification speaks of the entries that are array buffers, of those among them
  that can be detached in the source domain, and of the surviving list that these
  form, in the order of the transfer list.
\<close>

fun entries_ArrayBuffers :: "JSValue option list \<Rightarrow> ab_ref list" where
  "entries_ArrayBuffers [] = []"
| "entries_ArrayBuffers (Some (JSArrayBuffer ab) # es) = ab # entries_ArrayBuffers es"
| "entries_ArrayBuffers (e # es) = entries_ArrayBuffers es"

definition transferable :: "Isolate \<Rightarrow> ab_ref \<Rightarrow> bool" where
  "transferable isolate ab = (IsNeuterable (isolate ab) \<and> \<not> IsExternal (isolate ab))"

definition surviving :: "Isolate \<Rightarrow> JSValue option list \<Rightarrow> ab_ref list" where
  "surviving isolate es = filter (transferable isolate) (entries_ArrayBuffers es)"

definition all_ArrayBuffers :: "JSValue option list \<Rightarrow> bool" where
  "all_ArrayBuffers es = list_all (\<lambda>e. case e of Some (JSArrayBuffer ab) \<Rightarrow> True | _ \<Rightarrow> False) es"

section \<open>Operations on a store\<close>

text \<open>
  What can happen to a store after a pair has been disentangled: every operation of
  the file that a port's owner, its event loop or another thread can start. The
  channel factory is among them; it calls \<^verbatim>\<open>Entangle\<close> on the two ports it has just
  made. An operation that fails leaves the state as it was.
\<close>

datatype operation =
    Op_PostMessage port_ref "JSValue list"
  | Op_Start port_ref
  | Op_Stop port_ref
  | Op_Close port_ref
  | Op_OnMessage port_ref
  | Op_New "data_ref option"
  | Op_Detach port_ref
  | Op_AddToIncomingQueue data_ref Message
  | Op_Disentangle data_ref
  | Op_MessageChannel

fun after_op :: "V8 \<Rightarrow> Environment \<Rightarrow> operation \<Rightarrow> Isolate \<times> Heap \<Rightarrow> Isolate \<times> Heap" where
  "after_op v8 env (Op_PostMessage p args) st = snd (PostMessage v8 (Some p) args st)"
| "after_op v8 env (Op_Start p) (isolate, h) = (isolate, snd (Start_args (Some p) h))"
| "after_op v8 env (Op_Stop p) (isolate, h) = (isolate, snd (Stop_args (Some p) h))"
| "after_op v8 env (Op_Close p) (isolate, h) =
     (case Close p h of Inl e \<Rightarrow> (isolate, h) | Inr h' \<Rightarrow> (isolate, h'))"
| "after_op v8 env (Op_OnMessage p) (isolate, h) =
     (case OnMessage v8 env p h of Inl e \<Rightarrow> (isolate, h) | Inr (h', calls) \<Rightarrow> (isolate, h'))"
| "after_op v8 env (Op_New d) (isolate, h) =
     (case New_data env d h of Inl e \<Rightarrow> (isolate, h) | Inr (p, h') \<Rightarrow> (isolate, h'))"
| "after_op v8 env (Op_Detach p) (isolate, h) =
     (case Detach p h of Inl e \<Rightarrow> (isolate, h) | Inr (d, h') \<Rightarrow> (isolate, h'))"
| "after_op v8 env (Op_AddToIncomingQueue d m) (isolate, h) =
     (isolate, data_AddToIncomingQueue d m h)"
| "after_op v8 env (Op_Disentangle d) (isolate, h) = (isolate, Disentangle d h)"
| "after_op v8 env Op_MessageChannel (isolate, h) =
     (case MessageChannel env True h of Inl e \<Rightarrow> (isolate, h) | Inr (ps, h') \<Rightarrow> (isolate, h'))"

fun after_ops ::
  "V8 \<Rightarrow> Environment \<Rightarrow> operation list \<Rightarrow> Isolate \<times> Heap \<Rightarrow> Isolate \<times> Heap" where
  "after_ops v8 env [] st = st"
| "after_ops v8 env (x # xs) st = after_ops v8 env xs (after_op v8 env x st)"

text \<open>
  The relation between a store and a later one that the operations keep: PortData that
  existed stays, and a sibling pointer that was null is still null.
\<close>

definition keeps_closed :: "Heap \<Rightarrow> Heap \<Rightarrow> bool" where
  "keeps_closed h h' =
     (next_data h \<le> next_data h' \<and>
      (\<forall>d < next_data h. sibling (port_datas h d) = None \<longrightarrow> sibling (port_datas h' d) = None))"

section \<open>Traffic between two ports\<close>

text \<open>
  Traffic between a sender \<open>a\<close> and a receiver \<open>b\<close>: the sender's thread posts messages
  with \<^verbatim>\<open>Send\<close>; the receiver's thread starts and stops the port and runs \<^verbatim>\<open>OnMessage\<close>
  when the event loop delivers a wake-up. The state is the store and the values
  \<^verbatim>\<open>onmessage\<close> of \<open>b\<close> has been called with. The steps are taken in any order.
  \<open>Deliver\<close> is a whole run of \<^verbatim>\<open>OnMessage\<close>; \<open>Deliver_one\<close> is one pass through the body of its
  loop, so that posts of the other thread can fall between two passes.
\<close>

datatype traffic = Post Message | Deliver | Deliver_one | Start_receiving | Stop_receiving

fun traffic_step ::
  "V8 \<Rightarrow> Environment \<Rightarrow> port_ref \<Rightarrow> port_ref \<Rightarrow> traffic \<Rightarrow> Heap \<times> JSValue list
     \<Rightarrow> Heap \<times> JSValue list" where
  "traffic_step v8 env a b (Post m) (h, seen) =
     (case Send a m h of Inl e \<Rightarrow> (h, seen) | Inr h' \<Rightarrow> (h', seen))"
| "traffic_step v8 env a b Deliver (h, seen) =
     (case OnMessage v8 env b h of Inl e \<Rightarrow> (h, seen) | Inr (h', calls) \<Rightarrow> (h', seen @ calls))"
| "traffic_step v8 env a b Deliver_one (h, seen) = snd (OnMessage_body v8 env b (h, seen))"
| "traffic_step v8 env a b Start_receiving (h, seen) =
     (case Start b h of Inl e \<Rightarrow> (h, seen) | Inr h' \<Rightarrow> (h', seen))"
| "traffic_step v8 env a b Stop_receiving (h, seen) =
     (case Stop b h of Inl e \<Rightarrow> (h, seen) | Inr h' \<Rightarrow> (h', seen))"

definition run_traffic ::
  "V8 \<Rightarrow> Environment \<Rightarrow> port_ref \<Rightarrow> port_ref \<Rightarrow> traffic list \<Rightarrow> Heap \<times> JSValue list
     \<Rightarrow> Heap \<times> JSValue list" where
  "run_traffic v8 env a b xs st = foldl (\<lambda>st x. traffic_step v8 env a b x st) st xs"

fun posted :: "traffic list \<Rightarrow> Message list" where
  "posted [] = []"
| "posted (Post m # xs) = m # posted xs"
| "posted (x # xs) = posted xs"

text \<open>
  The value \<^verbatim>\<open>onmessage\<close> is called with for a message the loop has taken off the queue,
  if it is called: user code must be allowed to run, the message must deserialize and
  the object must have the property.
\<close>

definition callback_value :: "V8 \<Rightarrow> Environment \<Rightarrow> Message \<Rightarrow> JSValue option" where
  "callback_value v8 env m =
     (if can_call_into_js env \<and> has_onmessage env then fst (Deserialize v8 m) else None)"

definition paired :: "port_ref \<Rightarrow> port_ref \<Rightarrow> data_ref \<Rightarrow> data_ref \<Rightarrow> Heap \<Rightarrow> bool" where
  "paired a b da db h =
     (data (ports h a) = Some da \<and> data (ports h b) = Some db \<and> da \<noteq> db \<and>
      sibling (port_datas h da) = Some db \<and> sibling (port_datas h db) = Some da)"

section \<open>A small codec and concrete inputs\<close>

text \<open>
  A codec over four kinds of value, to run the definitions on concrete inputs: a
  number, \<open>null\<close> and \<open>undefined\<close> are written as a tag and a byte, an array buffer as
  its transfer id when it has one and as a copy of its bytes otherwise, and nothing else
  can be cloned. In \<open>demo_isolate\<close> buffer 1 is not neuterable and buffer 2 is external.
\<close>

definition demo_v8 :: V8 where
  "demo_v8 =
     \<lparr>version_header = [255, 13],
      write_value = (\<lambda>isolate transfers v.
         case v of
           JSNumber n \<Rightarrow> Some [73, word_of_int n]
         | JSNull \<Rightarrow> Some [48]
         | JSUndefined \<Rightarrow> Some [95]
         | JSArrayBuffer r \<Rightarrow>
             (case find (\<lambda>(i, ab). ab = r) transfers of
                Some (i, ab) \<Rightarrow> Some [116, of_nat i]
              | None \<Rightarrow> Some (66 # ab_bytes (isolate r)))
         | _ \<Rightarrow> None),
      read_header = (\<lambda>bs. if take 2 bs = [255, 13] then Some (drop 2 bs) else None),
      read_value = (\<lambda>transfers bs.
         if bs = [48] then Some JSNull
         else if bs = [95] then Some JSUndefined
         else if length bs = 2 \<and> hd bs = 73 then Some (JSNumber (uint (bs ! 1)))
         else None)\<rparr>"

definition demo_isolate :: Isolate where
  "demo_isolate =
     (\<lambda>r. \<lparr>ab_bytes = [1, 2, 3], ab_neuterable = (r \<noteq> 1), ab_external = (r = 2),
            ab_neutered = False\<rparr>)"

definition demo_transfer_list :: JSValue where
  "demo_transfer_list =
     JSArray [Some (JSArrayBuffer 0), Some (JSArrayBuffer 1), Some (JSArrayBuffer 2),
              Some (JSArrayBuffer 3)]"

definition demo_Message :: Message where
  "demo_Message =
     \<lparr>main_message_buf = \<lparr>buf_data = Some [1, 2, 3], buf_size = 3\<rparr>,
      array_buffer_contents =
        [\<lparr>buf_data = Some [7, 8], buf_size = 2\<rparr>, \<lparr>buf_data = Some [9], buf_size = 1\<rparr>]\<rparr>"

text \<open>
  The store before anything is allocated, the store after \<^verbatim>\<open>new MessagePort\<close> on it (one
  port, never entangled), and the store after a \<^verbatim>\<open>MessageChannel\<close> on it (ports 0 and 1,
  entangled, sharing mutex 1).
\<close>

definition empty_Heap :: Heap where
  "empty_Heap =
     \<lparr>port_datas = (\<lambda>d. \<lparr>incoming_messages = [], receiving_messages = False, owner = None,
                          sibling = None, sibling_mutex = 0\<rparr>),
      ports = (\<lambda>p. \<lparr>data = None, async_sends = 0, handle_closed = False\<rparr>),
      mutexes = 0, next_data = 0, next_port = 0\<rparr>"

definition demo_env :: Environment where
  "demo_env = \<lparr>can_call_into_js = True, has_onmessage = True,
                MakeCallback_ok = (\<lambda>v. v \<noteq> JSNull), constructor_ok = True\<rparr>"

definition lonely_Heap :: Heap where
  "lonely_Heap =
     \<lparr>port_datas = (\<lambda>d. \<lparr>incoming_messages = [], receiving_messages = False,
                          owner = (if d = 0 then Some 0 else None),
                          sibling = None, sibling_mutex = 0\<rparr>),
      ports = (\<lambda>p. \<lparr>data = (if p = 0 then Some 0 else None), async_sends = 0,
                     handle_closed = False\<rparr>),
      mutexes = 1, next_data = 1, next_port = 1\<rparr>"

definition channel_Heap :: Heap where
  "channel_Heap =
     \<lparr>port_datas = (\<lambda>d. \<lparr>incoming_messages = [], receiving_messages = False,
                          owner = (if d < 2 then Some d else None),
                          sibling = (if d = 0 then Some 1 else if d = 1 then Some 0 else None),
                          sibling_mutex = (if d < 2 then 1 else 0)\<rparr>),
      ports = (\<lambda>p. \<lparr>data = (if p < 2 then Some p else None), async_sends = 0,
                     handle_closed = False\<rparr>),
      mutexes = 2, next_data = 2, next_port = 2\<rparr>"

text \<open>
  The store after \<open>Detach\<close> of the port of \<open>lonely_Heap\<close>: PortData 0 has no owner and an
  empty queue.
\<close>

definition detached_Heap :: Heap where
  "detached_Heap =
     \<lparr>port_datas = (\<lambda>d. \<lparr>incoming_messages = [], receiving_messages = False, owner = None,
                          sibling = None, sibling_mutex = 0\<rparr>),
      ports = (\<lambda>p. \<lparr>data = None, async_sends = 0, handle_closed = False\<rparr>),
      mutexes = 1, next_data = 1, next_port = 1\<rparr>"

text \<open>
  A store with one port that is not entangled, PortData 0 holding the given queue and
  receive-enabled flag.
\<close>

definition queued_Heap :: "bool \<Rightarrow> Message list \<Rightarrow> Heap" where
  "queued_Heap receiving queue =
     update_data 0 (\<lambda>pd. pd\<lparr>receiving_messages := receiving, incoming_messages := queue\<rparr>)
       lonely_Heap"

definition number_Message :: "byte \<Rightarrow> Message" where
  "number_Message n =
     \<lparr>main_message_buf = \<lparr>buf_data = Some [255, 13, 73, n], buf_size = 4\<rparr>,
      array_buffer_contents = []\<rparr>"

definition demo_traffic :: "traffic list" where
  "demo_traffic =
     [Post (number_Message 5), Start_receiving, Deliver_one, Post (number_Message 7), Deliver]"

section \<open>Serialize and Deserialize\<close>

lemma transfer_loop_all_ArrayBuffers:
  "all_ArrayBuffers es \<Longrightarrow>
     transfer_loop isolate es (array_buffers, ser) =
       Inr (array_buffers @ surviving isolate es,
            ser\<lparr>ser_transfers := ser_transfers ser @
                   enumerate (length array_buffers) (surviving isolate es)\<rparr>)"
proof (induction es arbitrary: array_buffers ser)
  case Nil
  then show ?case by (simp add: surviving_def)
next
  case (Cons e es)
  from Cons.prems obtain ab where e: "e = Some (JSArrayBuffer ab)" and es: "all_ArrayBuffers es"
    by (auto simp: all_ArrayBuffers_def split: option.splits JSValue.splits)
  show ?case
    by (simp add: e Cons.IH [OF es] surviving_def transferable_def ser_TransferArrayBuffer_def)
qed

lemma transfer_loop_invalid:
  "None \<notin> set es \<Longrightarrow> \<not> all_ArrayBuffers es \<Longrightarrow>
     transfer_loop isolate es st = Inl ERR_INVALID_TRANSFER_OBJECT"
proof (induction es arbitrary: st)
  case Nil
  then show ?case by (simp add: all_ArrayBuffers_def)
next
  case (Cons e es)
  obtain array_buffers ser where st: "st = (array_buffers, ser)" by (cases st)
  from Cons.prems obtain v where e: "e = Some v" by (cases e) auto
  show ?case
  proof (cases v)
    case (JSArrayBuffer ab)
    with Cons.prems e have "None \<notin> set es" "\<not> all_ArrayBuffers es"
      by (auto simp: all_ArrayBuffers_def)
    from Cons.IH [OF this] show ?thesis
      by (simp add: st e JSArrayBuffer)
  qed (simp_all add: st e)
qed

lemma externalize_loop_other:
  "externalize_loop abs' (isolate, msg) = (isolate', msg') \<Longrightarrow> ab \<notin> set abs' \<Longrightarrow>
     isolate' ab = isolate ab"
  by (induction abs' arbitrary: isolate msg)
     (auto simp: Externalize_def Neuter_def Let_def split: prod.splits)

lemma externalize_loop_keeps:
  "externalize_loop abs' (isolate, msg) = (isolate', msg') \<Longrightarrow>
     ab_external (isolate ab) \<and> ab_neutered (isolate ab) \<and> ab_bytes (isolate ab) = [] \<Longrightarrow>
     ab_external (isolate' ab) \<and> ab_neutered (isolate' ab) \<and> ab_bytes (isolate' ab) = []"
  by (induction abs' arbitrary: isolate msg)
     (auto simp: Externalize_def Neuter_def Let_def split: prod.splits if_splits)

lemma externalize_loop_member:
  "externalize_loop abs' (isolate, msg) = (isolate', msg') \<Longrightarrow> ab \<in> set abs' \<Longrightarrow>
     ab_external (isolate' ab) \<and> ab_neutered (isolate' ab) \<and> ab_bytes (isolate' ab) = []"
proof (induction abs' arbitrary: isolate msg)
  case Nil
  then show ?case by simp
next
  case (Cons a rest)
  show ?case
  proof (cases "ab = a")
    case True
    from Cons.prems(1) show ?thesis
      by (auto simp: True Externalize_def Neuter_def Let_def
          dest!: externalize_loop_keeps [where ab = a])
  next
    case False
    with Cons.prems have "ab \<in> set rest" by simp
    with Cons.prems(1) Cons.IH show ?thesis
      by (auto simp: Externalize_def Neuter_def Let_def)
  qed
qed

lemma externalize_loop_message:
  "externalize_loop abs' (isolate, msg) = (isolate', msg') \<Longrightarrow>
     main_message_buf msg' = main_message_buf msg \<and>
     length (array_buffer_contents msg') = length (array_buffer_contents msg) + length abs'"
  by (induction abs' arbitrary: isolate msg)
     (auto simp: Externalize_def Neuter_def Let_def split: prod.splits)

lemma attach_loop_eq:
  "attach_loop i bs (released, des) =
     (released @ map (\<lambda>b. b\<lparr>buf_data := None\<rparr>) bs,
      des\<lparr>des_transfers := des_transfers des @
            map (\<lambda>(k, b). (k, ArrayBuffer_New_internalized
                               (case buf_data b of None \<Rightarrow> [] | Some d \<Rightarrow> d) (buf_size b)))
              (enumerate i bs)\<rparr>)"
proof (induction bs arbitrary: i released des)
  case Nil
  then show ?case by simp
next
  case (Cons b bs)
  show ?case
    by (simp add: Cons.IH release_def des_TransferArrayBuffer_def)
qed

text \<open>
  C1. Serialize commits in two phases. When it fails, with whatever error, the sender's
  heap and the message are what they were: no buffer is externalized or neutered and
  the message stays empty. When it succeeds the body write has succeeded, and exactly
  the surviving buffers of the transfer list are externalized and neutered, one entry
  of the message's contents for each. On an empty message, an error of the transfer
  list is the failure returned, and a failed body write is a failure.
\<close>

theorem Serialize_two_phase_commit:
  assumes "Serialize v8 isolate msg input transfer_list_v = (r, isolate', msg')"
  shows "(\<forall>e. r = Inl e \<longrightarrow> isolate' = isolate \<and> msg' = msg) \<and>
         (\<forall>ok. r = Inr ok \<longrightarrow>
            (\<exists>array_buffers ser ser'.
               read_transfer_list isolate transfer_list_v = Inr (array_buffers, ser) \<and>
               WriteValue v8 isolate input (WriteHeader v8 ser) = Some ser' \<and>
               (\<forall>ab \<in> set array_buffers.
                  ab_external (isolate' ab) \<and> ab_neutered (isolate' ab) \<and>
                  ab_bytes (isolate' ab) = []) \<and>
               (\<forall>ab. ab \<notin> set array_buffers \<longrightarrow> isolate' ab = isolate ab) \<and>
               length (array_buffer_contents msg') =
                 length (array_buffer_contents msg) + length array_buffers \<and>
               main_message_buf msg' =
                 \<lparr>buf_data = Some (ser_buffer ser'), buf_size = length (ser_buffer ser')\<rparr>)) \<and>
         (is_empty (main_message_buf msg) \<longrightarrow>
            (\<forall>e. read_transfer_list isolate transfer_list_v = Inl e \<longrightarrow> r = Inl e) \<and>
            (\<forall>array_buffers ser.
               read_transfer_list isolate transfer_list_v = Inr (array_buffers, ser) \<and>
               WriteValue v8 isolate input (WriteHeader v8 ser) = None \<longrightarrow>
               r = Inl DataCloneError))"
proof -
  have fails: "isolate' = isolate \<and> msg' = msg" if "r = Inl e" for e
    using assms that
    by (auto simp: Serialize_def Let_def split: if_splits sum.splits option.splits prod.splits)
  have succeeds:
    "\<exists>array_buffers ser ser'.
       read_transfer_list isolate transfer_list_v = Inr (array_buffers, ser) \<and>
       WriteValue v8 isolate input (WriteHeader v8 ser) = Some ser' \<and>
       (\<forall>ab \<in> set array_buffers.
          ab_external (isolate' ab) \<and> ab_neutered (isolate' ab) \<and>
          ab_bytes (isolate' ab) = []) \<and>
       (\<forall>ab. ab \<notin> set array_buffers \<longrightarrow> isolate' ab = isolate ab) \<and>
       length (array_buffer_contents msg') =
         length (array_buffer_contents msg) + length array_buffers \<and>
       main_message_buf msg' =
         \<lparr>buf_data = Some (ser_buffer ser'), buf_size = length (ser_buffer ser')\<rparr>"
    if r: "r = Inr ok" for ok
  proof -
    from assms r obtain array_buffers ser ser' i1 m1 where
      t: "read_transfer_list isolate transfer_list_v = Inr (array_buffers, ser)" and
      w: "WriteValue v8 isolate input (WriteHeader v8 ser) = Some ser'" and
      x: "externalize_loop array_buffers (isolate, msg) = (i1, m1)" and
      i: "isolate' = i1" and
      m: "msg' = m1\<lparr>main_message_buf :=
                     \<lparr>buf_data = Some (ser_buffer ser'), buf_size = length (ser_buffer ser')\<rparr>\<rparr>"
      by (auto simp: Serialize_def Let_def Release_def
          split: if_splits sum.splits option.splits prod.splits)
    show ?thesis
      using t w externalize_loop_member [OF x] externalize_loop_other [OF x]
        externalize_loop_message [OF x]
      by (intro exI [of _ array_buffers] exI [of _ ser] exI [of _ ser']) (simp add: i m)
  qed
  have invalid: "r = Inl e"
    if "is_empty (main_message_buf msg)" "read_transfer_list isolate transfer_list_v = Inl e"
    for e
    using assms that by (simp add: Serialize_def)
  have clone: "r = Inl DataCloneError"
    if "is_empty (main_message_buf msg)"
       "read_transfer_list isolate transfer_list_v = Inr (array_buffers, ser)"
       "WriteValue v8 isolate input (WriteHeader v8 ser) = None"
    for array_buffers ser
    using assms that by (simp add: Serialize_def)
  show ?thesis
    using fails succeeds invalid clone by blast
qed

theorem Serialize_two_phase_commit_witness:
  "Serialize demo_v8 demo_isolate empty_Message JSObject demo_transfer_list
     = (Inl DataCloneError, demo_isolate, empty_Message) \<and>
   read_transfer_list demo_isolate demo_transfer_list
     = Inr ([0, 3], new_ValueSerializer\<lparr>ser_transfers := [(0, 0), (1, 3)]\<rparr>) \<and>
   \<not> ab_neutered (demo_isolate 0) \<and> \<not> ab_external (demo_isolate 3)"
proof -
  have t: "read_transfer_list demo_isolate demo_transfer_list
             = Inr ([0, 3], new_ValueSerializer\<lparr>ser_transfers := [(0, 0), (1, 3)]\<rparr>)"
    by (simp add: read_transfer_list_def demo_transfer_list_def demo_isolate_def
        IsNeuterable_def IsExternal_def ser_TransferArrayBuffer_def new_ValueSerializer_def)
  have w: "WriteValue demo_v8 demo_isolate JSObject
             (WriteHeader demo_v8 (new_ValueSerializer\<lparr>ser_transfers := [(0, 0), (1, 3)]\<rparr>)) = None"
    by (simp add: WriteValue_def WriteHeader_def demo_v8_def)
  obtain r i m where
    s: "Serialize demo_v8 demo_isolate empty_Message JSObject demo_transfer_list = (r, i, m)"
    by (metis prod_cases3)
  have e: "is_empty (main_message_buf empty_Message)"
    by (simp add: is_empty_def empty_Message_def empty_buffer_def)
  from Serialize_two_phase_commit [OF s] e t w have "r = Inl DataCloneError"
    by blast
  with Serialize_two_phase_commit [OF s] have "i = demo_isolate \<and> m = empty_Message"
    by blast
  with s \<open>r = Inl DataCloneError\<close> t show ?thesis
    by (simp add: demo_isolate_def)
qed

text \<open>
  A post that succeeds, on the same transfer list: buffers 0 and 3 are externalized and
  neutered and their bytes are in the message, in this order; buffer 1 (not neuterable)
  and buffer 2 (external already) are as they were; the body refers to buffer 3 by its
  id 1.
\<close>

lemma Serialize_demo_success:
  "fst (Serialize demo_v8 demo_isolate empty_Message (JSArrayBuffer 3) demo_transfer_list)
     = Inr True \<and>
   map (\<lambda>ab. ab_neutered
               (fst (snd (Serialize demo_v8 demo_isolate empty_Message (JSArrayBuffer 3)
                            demo_transfer_list)) ab)) [0, 1, 2, 3]
     = [True, False, False, True] \<and>
   snd (snd (Serialize demo_v8 demo_isolate empty_Message (JSArrayBuffer 3) demo_transfer_list))
     = \<lparr>main_message_buf = \<lparr>buf_data = Some [255, 13, 116, 1], buf_size = 4\<rparr>,
        array_buffer_contents =
          [\<lparr>buf_data = Some [1, 2, 3], buf_size = 3\<rparr>,
           \<lparr>buf_data = Some [1, 2, 3], buf_size = 3\<rparr>]\<rparr>"
  by (simp add: Serialize_def read_transfer_list_def demo_transfer_list_def demo_isolate_def
      IsNeuterable_def IsExternal_def ser_TransferArrayBuffer_def new_ValueSerializer_def
      WriteValue_def WriteHeader_def demo_v8_def Release_def Externalize_def Neuter_def
      is_empty_def empty_Message_def empty_buffer_def Let_def)

lemma Serialize_all_ArrayBuffers:
  assumes "all_ArrayBuffers es" and "is_empty (main_message_buf msg)"
  shows "Serialize v8 isolate msg input (JSArray es) =
     (case write_value v8 isolate
             (zip [0..<length (surviving isolate es)] (surviving isolate es)) input of
        None \<Rightarrow> (Inl DataCloneError, isolate, msg)
      | Some bs \<Rightarrow>
          (Inr True, fst (externalize_loop (surviving isolate es) (isolate, msg)),
           (snd (externalize_loop (surviving isolate es) (isolate, msg)))
             \<lparr>main_message_buf :=
                \<lparr>buf_data = Some (version_header v8 @ bs),
                   buf_size = length (version_header v8 @ bs)\<rparr>\<rparr>))"
  using assms transfer_loop_all_ArrayBuffers [OF assms(1), of isolate "[]" new_ValueSerializer]
  by (simp add: Serialize_def read_transfer_list_def WriteValue_def WriteHeader_def Release_def
      new_ValueSerializer_def enumerate_eq_zip Let_def split: option.splits prod.splits)

text \<open>
  C2, as the code has it. When every entry can be read and one of them is not an array
  buffer, the loop ends in \<open>ERR_INVALID_TRANSFER_OBJECT\<close> and so does Serialize,
  changing nothing. When every entry is an array buffer, the loop registers exactly
  the surviving list with the encoder, entry \<open>k\<close> of the surviving list under the id
  \<open>k\<close>; an array buffer is in the surviving list only if it is neuterable and not
  external, so an entry that is not consumes no id. Such an entry is not transferred:
  the value is written by the encoder with the surviving list as its only table, the
  message gets one buffer for each entry of the surviving list and no other, and every
  array buffer outside the surviving list is in the sender's heap what it was. What the
  encoder writes for a buffer of the value that has no id is the encoder's affair; the
  comment of lines 137 and 138 expects a copy.
\<close>

theorem transfer_list_semantics:
  "(None \<notin> set es \<and> \<not> all_ArrayBuffers es \<longrightarrow>
      transfer_loop isolate es ([], new_ValueSerializer) = Inl ERR_INVALID_TRANSFER_OBJECT \<and>
      (is_empty (main_message_buf msg) \<longrightarrow>
         Serialize v8 isolate msg input (JSArray es)
           = (Inl ERR_INVALID_TRANSFER_OBJECT, isolate, msg))) \<and>
   (all_ArrayBuffers es \<longrightarrow>
      (\<exists>ser. transfer_loop isolate es ([], new_ValueSerializer)
                = Inr (surviving isolate es, ser) \<and>
             ser_transfers ser
                = zip [0..<length (surviving isolate es)] (surviving isolate es) \<and>
             ser_buffer ser = [])) \<and>
   (\<forall>ab. ab \<in> set (surviving isolate es) \<longleftrightarrow>
      Some (JSArrayBuffer ab) \<in> set es \<and> IsNeuterable (isolate ab) \<and> \<not> IsExternal (isolate ab)) \<and>
   (all_ArrayBuffers es \<and> is_empty (main_message_buf msg) \<longrightarrow>
      (write_value v8 isolate
         (zip [0..<length (surviving isolate es)] (surviving isolate es)) input = None \<longrightarrow>
       Serialize v8 isolate msg input (JSArray es) = (Inl DataCloneError, isolate, msg)) \<and>
      (\<forall>bs. distinct (surviving isolate es) \<and>
            write_value v8 isolate
               (zip [0..<length (surviving isolate es)] (surviving isolate es)) input = Some bs \<longrightarrow>
         (\<exists>isolate' msg'.
            Serialize v8 isolate msg input (JSArray es) = (Inr True, isolate', msg') \<and>
            main_message_buf msg'
              = \<lparr>buf_data = Some (version_header v8 @ bs),
                  buf_size = length (version_header v8 @ bs)\<rparr> \<and>
            length (array_buffer_contents msg')
              = length (array_buffer_contents msg) + length (surviving isolate es) \<and>
            (\<forall>ab. ab \<notin> set (surviving isolate es) \<longrightarrow> isolate' ab = isolate ab))))"
proof -
  have invalid:
    "transfer_loop isolate es ([], new_ValueSerializer) = Inl ERR_INVALID_TRANSFER_OBJECT"
    if "None \<notin> set es" "\<not> all_ArrayBuffers es"
    using that by (rule transfer_loop_invalid)
  have aborts:
    "Serialize v8 isolate msg input (JSArray es) = (Inl ERR_INVALID_TRANSFER_OBJECT, isolate, msg)"
    if "None \<notin> set es" "\<not> all_ArrayBuffers es" "is_empty (main_message_buf msg)"
    using that invalid by (simp add: Serialize_def read_transfer_list_def)
  have dense:
    "\<exists>ser. transfer_loop isolate es ([], new_ValueSerializer) = Inr (surviving isolate es, ser) \<and>
           ser_transfers ser = zip [0..<length (surviving isolate es)] (surviving isolate es) \<and>
           ser_buffer ser = []"
    if "all_ArrayBuffers es"
    using transfer_loop_all_ArrayBuffers [OF that, of isolate "[]" new_ValueSerializer]
    by (simp add: new_ValueSerializer_def enumerate_eq_zip)
  have entries: "ab \<in> set (entries_ArrayBuffers es) \<longleftrightarrow> Some (JSArrayBuffer ab) \<in> set es" for ab
    by (induction es rule: entries_ArrayBuffers.induct) auto
  have member:
    "ab \<in> set (surviving isolate es) \<longleftrightarrow>
       Some (JSArrayBuffer ab) \<in> set es \<and> IsNeuterable (isolate ab) \<and> \<not> IsExternal (isolate ab)"
    for ab
    by (auto simp: surviving_def transferable_def entries)
  have unclonable:
    "Serialize v8 isolate msg input (JSArray es) = (Inl DataCloneError, isolate, msg)"
    if "all_ArrayBuffers es" "is_empty (main_message_buf msg)"
       "write_value v8 isolate
          (zip [0..<length (surviving isolate es)] (surviving isolate es)) input = None"
    using that by (simp add: Serialize_all_ArrayBuffers)
  have written:
    "\<exists>isolate' msg'.
       Serialize v8 isolate msg input (JSArray es) = (Inr True, isolate', msg') \<and>
       main_message_buf msg'
         = \<lparr>buf_data = Some (version_header v8 @ bs),
             buf_size = length (version_header v8 @ bs)\<rparr> \<and>
       length (array_buffer_contents msg')
         = length (array_buffer_contents msg) + length (surviving isolate es) \<and>
       (\<forall>ab. ab \<notin> set (surviving isolate es) \<longrightarrow> isolate' ab = isolate ab)"
    if a: "all_ArrayBuffers es" "is_empty (main_message_buf msg)"
      and w: "write_value v8 isolate
          (zip [0..<length (surviving isolate es)] (surviving isolate es)) input = Some bs"
    for bs
  proof -
    obtain i1 m1 where x: "externalize_loop (surviving isolate es) (isolate, msg) = (i1, m1)"
      by (cases "externalize_loop (surviving isolate es) (isolate, msg)")
    have "Serialize v8 isolate msg input (JSArray es) =
            (Inr True, i1,
             m1\<lparr>main_message_buf :=
                  \<lparr>buf_data = Some (version_header v8 @ bs),
                     buf_size = length (version_header v8 @ bs)\<rparr>\<rparr>)"
      by (simp add: Serialize_all_ArrayBuffers [OF a] w x)
    with externalize_loop_other [OF x] externalize_loop_message [OF x] show ?thesis
      by simp
  qed
  show ?thesis
    using invalid aborts dense member unclonable written by blast
qed

theorem transfer_list_semantics_witness:
  "all_ArrayBuffers [Some (JSArrayBuffer 0), Some (JSArrayBuffer 1), Some (JSArrayBuffer 2),
                     Some (JSArrayBuffer 3)] \<and>
   surviving demo_isolate [Some (JSArrayBuffer 0), Some (JSArrayBuffer 1),
                           Some (JSArrayBuffer 2), Some (JSArrayBuffer 3)] = [0, 3] \<and>
   (\<exists>ser. transfer_loop demo_isolate
            [Some (JSArrayBuffer 0), Some (JSArrayBuffer 1), Some (JSArrayBuffer 2),
             Some (JSArrayBuffer 3)] ([], new_ValueSerializer) = Inr ([0, 3], ser) \<and>
          ser_transfers ser = [(0, 0), (1, 3)] \<and> ser_buffer ser = []) \<and>
   None \<notin> set [Some (JSArrayBuffer 0), Some JSObject] \<and>
   \<not> all_ArrayBuffers [Some (JSArrayBuffer 0), Some JSObject] \<and>
   is_empty (main_message_buf empty_Message) \<and>
   Serialize demo_v8 demo_isolate empty_Message JSNull
       (JSArray [Some (JSArrayBuffer 0), Some JSObject])
     = (Inl ERR_INVALID_TRANSFER_OBJECT, demo_isolate, empty_Message) \<and>
   all_ArrayBuffers [Some (JSArrayBuffer 1)] \<and>
   surviving demo_isolate [Some (JSArrayBuffer 1)] = [] \<and>
   write_value demo_v8 demo_isolate [] (JSArrayBuffer 1) = Some [66, 1, 2, 3] \<and>
   (\<exists>isolate' msg'.
      Serialize demo_v8 demo_isolate empty_Message (JSArrayBuffer 1)
          (JSArray [Some (JSArrayBuffer 1)])
        = (Inr True, isolate', msg') \<and>
      main_message_buf msg' = \<lparr>buf_data = Some [255, 13, 66, 1, 2, 3], buf_size = 6\<rparr> \<and>
      array_buffer_contents msg' = [] \<and>
      isolate' 1 = demo_isolate 1)"
proof -
  let ?good = "[Some (JSArrayBuffer 0), Some (JSArrayBuffer 1), Some (JSArrayBuffer 2),
                Some (JSArrayBuffer 3)]"
  let ?bad = "[Some (JSArrayBuffer 0), Some JSObject]"
  have g: "all_ArrayBuffers ?good"
    by (simp add: all_ArrayBuffers_def)
  have s: "surviving demo_isolate ?good = [0, 3]"
    by (simp add: surviving_def transferable_def demo_isolate_def IsNeuterable_def
        IsExternal_def)
  have z: "zip [0..<length [0::nat, 3]] [0::nat, 3] = [(0, 0), (1, 3)]"
    by (simp add: upt_rec)
  have b: "None \<notin> set ?bad" "\<not> all_ArrayBuffers ?bad"
    by (simp_all add: all_ArrayBuffers_def)
  have e: "is_empty (main_message_buf empty_Message)"
    by (simp add: is_empty_def empty_Message_def empty_buffer_def)
  from transfer_list_semantics [of ?good demo_isolate empty_Message demo_v8 JSNull] g
  have "\<exists>ser. transfer_loop demo_isolate ?good ([], new_ValueSerializer)
                 = Inr (surviving demo_isolate ?good, ser) \<and>
               ser_transfers ser
                 = zip [0..<length (surviving demo_isolate ?good)] (surviving demo_isolate ?good) \<and>
               ser_buffer ser = []"
    by blast
  then have dense:
    "\<exists>ser. transfer_loop demo_isolate ?good ([], new_ValueSerializer) = Inr ([0, 3], ser) \<and>
           ser_transfers ser = [(0, 0), (1, 3)] \<and> ser_buffer ser = []"
    unfolding s z .
  from transfer_list_semantics [of ?bad demo_isolate empty_Message demo_v8 JSNull] b e
  have "Serialize demo_v8 demo_isolate empty_Message JSNull (JSArray ?bad)
          = (Inl ERR_INVALID_TRANSFER_OBJECT, demo_isolate, empty_Message)"
    by blast
  let ?skip = "[Some (JSArrayBuffer 1)]"
  have k: "all_ArrayBuffers ?skip" "surviving demo_isolate ?skip = []"
    "write_value demo_v8 demo_isolate [] (JSArrayBuffer 1) = Some [66, 1, 2, 3]"
    by (simp_all add: all_ArrayBuffers_def surviving_def transferable_def demo_isolate_def
        IsNeuterable_def IsExternal_def demo_v8_def)
  have h: "version_header demo_v8 = [255, 13]"
    by (simp add: demo_v8_def)
  from transfer_list_semantics [of ?skip demo_isolate empty_Message demo_v8 "JSArrayBuffer 1"]
    k e
  have "\<exists>isolate' msg'.
      Serialize demo_v8 demo_isolate empty_Message (JSArrayBuffer 1) (JSArray ?skip)
        = (Inr True, isolate', msg') \<and>
      main_message_buf msg'
        = \<lparr>buf_data = Some (version_header demo_v8 @ [66, 1, 2, 3]),
            buf_size = length (version_header demo_v8 @ [66, 1, 2, 3])\<rparr> \<and>
      length (array_buffer_contents msg')
        = length (array_buffer_contents empty_Message) + length (surviving demo_isolate ?skip) \<and>
      (\<forall>ab. ab \<notin> set (surviving demo_isolate ?skip) \<longrightarrow> isolate' ab = demo_isolate ab)"
    by simp
  then obtain i' m' where
    x: "Serialize demo_v8 demo_isolate empty_Message (JSArrayBuffer 1) (JSArray ?skip)
          = (Inr True, i', m')" and
    mm: "main_message_buf m'
          = \<lparr>buf_data = Some (version_header demo_v8 @ [66, 1, 2, 3]),
              buf_size = length (version_header demo_v8 @ [66, 1, 2, 3])\<rparr>" and
    l: "length (array_buffer_contents m')
          = length (array_buffer_contents empty_Message) + length (surviving demo_isolate ?skip)" and
    f: "\<forall>ab. ab \<notin> set (surviving demo_isolate ?skip) \<longrightarrow> i' ab = demo_isolate ab"
    by blast
  from mm have mm': "main_message_buf m' = \<lparr>buf_data = Some [255, 13, 66, 1, 2, 3], buf_size = 6\<rparr>"
    unfolding h by simp
  from l have l': "array_buffer_contents m' = []"
    unfolding k(2) by (simp add: empty_Message_def)
  from f have f': "i' 1 = demo_isolate 1"
    unfolding k(2) by simp
  from x mm' l' f' have skipped:
    "\<exists>isolate' msg'.
      Serialize demo_v8 demo_isolate empty_Message (JSArrayBuffer 1) (JSArray ?skip)
        = (Inr True, isolate', msg') \<and>
      main_message_buf msg' = \<lparr>buf_data = Some [255, 13, 66, 1, 2, 3], buf_size = 6\<rparr> \<and>
      array_buffer_contents msg' = [] \<and>
      isolate' 1 = demo_isolate 1"
    by blast
  from g s dense b e k skipped
    \<open>Serialize demo_v8 demo_isolate empty_Message JSNull (JSArray ?bad)
          = (Inl ERR_INVALID_TRANSFER_OBJECT, demo_isolate, empty_Message)\<close>
  show ?thesis
    by blast
qed

text \<open>
  C2 in the words of the specification, a skipped entry neither copied nor transferred,
  fails with an encoder that copies a buffer without id, as the comment of lines 137
  and 138 says the engine does: buffer 1 is not neuterable, the transfer list names it
  and the value is that buffer; the post succeeds, the buffer stays with the sender,
  and its bytes 1, 2, 3 are in the main blob of the message.
\<close>

theorem skipped_buffer_is_copied_counterexample:
  "\<not> IsNeuterable (demo_isolate 1) \<and>
   ab_bytes (demo_isolate 1) = [1, 2, 3] \<and>
   surviving demo_isolate [Some (JSArrayBuffer 1)] = [] \<and>
   Serialize demo_v8 demo_isolate empty_Message (JSArrayBuffer 1) (JSArray [Some (JSArrayBuffer 1)])
     = (Inr True, demo_isolate,
        \<lparr>main_message_buf = \<lparr>buf_data = Some [255, 13, 66, 1, 2, 3], buf_size = 6\<rparr>,
          array_buffer_contents = []\<rparr>)"
  by (simp add: Serialize_def read_transfer_list_def demo_isolate_def surviving_def
      transferable_def IsNeuterable_def IsExternal_def new_ValueSerializer_def
      WriteValue_def WriteHeader_def demo_v8_def Release_def
      is_empty_def empty_Message_def empty_buffer_def)

text \<open>
  C10. Whatever Deserialize returns, the message's list of contents is empty afterwards
  and the decoder holds, under the id \<open>k\<close>, a new internalized array buffer made of
  buffer \<open>k\<close> of the message. The header is read by a decoder that already holds them,
  so a message whose header is refused has given its buffers away all the same.
\<close>

theorem Deserialize_hands_over_buffers:
  assumes "Deserialize v8 msg = (r, msg', des)"
  shows "array_buffer_contents msg' = [] \<and>
         des_transfers des =
           map (\<lambda>(k, b). (k, ArrayBuffer_New_internalized
                               (case buf_data b of None \<Rightarrow> [] | Some d \<Rightarrow> d) (buf_size b)))
             (enumerate 0 (array_buffer_contents msg)) \<and>
         (\<forall>k ab. (k, ab) \<in> set (des_transfers des) \<longrightarrow> \<not> ab_external ab) \<and>
         r = (case ReadHeader v8 des of None \<Rightarrow> None | Some rest \<Rightarrow> ReadValue v8 des rest)"
  using assms
  by (auto simp: Deserialize_def attach_loop_eq new_ValueDeserializer_def Let_def
        ArrayBuffer_New_internalized_def
      split: option.splits prod.splits)

theorem Deserialize_hands_over_buffers_witness:
  "\<exists>msg' des.
     Deserialize demo_v8 demo_Message = (None, msg', des) \<and>
     ReadHeader demo_v8 des = None \<and>
     array_buffer_contents msg' = [] \<and>
     des_transfers des =
       [(0, \<lparr>ab_bytes = [7, 8], ab_neuterable = True, ab_external = False, ab_neutered = False\<rparr>),
        (1, \<lparr>ab_bytes = [9], ab_neuterable = True, ab_external = False, ab_neutered = False\<rparr>)]"
proof -
  obtain r msg' des where d: "Deserialize demo_v8 demo_Message = (r, msg', des)"
    by (metis prod_cases3)
  have h: "ReadHeader demo_v8 des = None"
    using d
    by (auto simp: Deserialize_def Let_def ReadHeader_def des_input_def demo_Message_def
        demo_v8_def attach_loop_eq new_ValueDeserializer_def split: prod.splits option.splits)
  from Deserialize_hands_over_buffers [OF d] h
  have "r = None" "array_buffer_contents msg' = []"
    "des_transfers des =
       map (\<lambda>(k, b). (k, ArrayBuffer_New_internalized
                           (case buf_data b of None \<Rightarrow> [] | Some d \<Rightarrow> d) (buf_size b)))
         (enumerate 0 (array_buffer_contents demo_Message))"
    by simp_all
  with d h show ?thesis
    by (simp add: demo_Message_def ArrayBuffer_New_internalized_def)
qed

section \<open>The concrete stores, from the constructors\<close>

lemma new_MessagePort_empty_Heap: "new_MessagePort empty_Heap = (0, lonely_Heap)"
  by (auto simp: new_MessagePort_def new_MessagePortData_def empty_Heap_def lonely_Heap_def
      Let_def fun_eq_iff)

lemma MessageChannel_empty_Heap:
  "MessageChannel demo_env True empty_Heap = Inr ((0, 1), channel_Heap)"
  by (auto simp: MessageChannel_def New_data_def New_args_def new_MessagePort_def
      new_MessagePortData_def Entangle_def data_Entangle_def empty_Heap_def channel_Heap_def
      demo_env_def Let_def fun_eq_iff update_data_def)

section \<open>Facts about the store\<close>

lemma ports_update_data [simp]: "ports (update_data d f h) = ports h"
  by (simp add: update_data_def)

lemma port_datas_update_port [simp]: "port_datas (update_port p f h) = port_datas h"
  by (simp add: update_port_def)

lemma port_datas_update_data [simp]:
  "port_datas (update_data d f h) d' = (if d' = d then f (port_datas h d) else port_datas h d')"
  by (simp add: update_data_def)

lemma ports_update_port [simp]:
  "ports (update_port p f h) p' = (if p' = p then f (ports h p) else ports h p')"
  by (simp add: update_port_def)

lemma mutexes_update [simp]:
  "mutexes (update_data d f h) = mutexes h" "mutexes (update_port p g h) = mutexes h"
  by (simp_all add: update_data_def update_port_def)

lemma port_datas_TriggerAsync [simp]: "port_datas (TriggerAsync p h) = port_datas h"
  by (simp add: TriggerAsync_def)

lemma data_TriggerAsync [simp]: "data (ports (TriggerAsync p h) p') = data (ports h p')"
  by (simp add: TriggerAsync_def)

lemma handle_closed_TriggerAsync [simp]:
  "handle_closed (ports (TriggerAsync p h) p') = handle_closed (ports h p')"
  by (simp add: TriggerAsync_def)

lemma async_sends_TriggerAsync [simp]:
  "async_sends (ports (TriggerAsync p h) p') =
     (if p' = p then Suc (async_sends (ports h p)) else async_sends (ports h p'))"
  by (simp add: TriggerAsync_def)

lemma mutexes_TriggerAsync [simp]: "mutexes (TriggerAsync p h) = mutexes h"
  by (simp add: TriggerAsync_def)

lemma port_datas_PingOwner [simp]:
  "port_datas (PingOwnerAfterDisentanglement d h) = port_datas h"
  by (simp add: PingOwnerAfterDisentanglement_def split: option.splits)

lemma data_PingOwner [simp]:
  "data (ports (PingOwnerAfterDisentanglement d h) p) = data (ports h p)"
  by (simp add: PingOwnerAfterDisentanglement_def split: option.splits)

lemma handle_closed_PingOwner [simp]:
  "handle_closed (ports (PingOwnerAfterDisentanglement d h) p) = handle_closed (ports h p)"
  by (simp add: PingOwnerAfterDisentanglement_def split: option.splits)

lemma mutexes_PingOwner [simp]: "mutexes (PingOwnerAfterDisentanglement d h) = mutexes h"
  by (simp add: PingOwnerAfterDisentanglement_def split: option.splits)

lemma data_Disentangle [simp]: "data (ports (Disentangle d h) p) = data (ports h p)"
  by (simp add: Disentangle_def Let_def split: option.splits)

lemma handle_closed_Disentangle [simp]:
  "handle_closed (ports (Disentangle d h) p) = handle_closed (ports h p)"
  by (simp add: Disentangle_def Let_def split: option.splits)

lemma Serialize_failure_unchanged:
  "Serialize v8 isolate msg input transfer_list_v = (Inl e, isolate', msg') \<Longrightarrow>
     isolate' = isolate \<and> msg' = msg"
  by (auto simp: Serialize_def Let_def split: if_splits sum.splits option.splits prod.splits)

lemma OnClose_data:
  "OnClose p h = Inr h' \<Longrightarrow> data (ports h' p) = None"
  by (auto simp: OnClose_def destroy_MessagePortData_def Let_def split: option.splits if_splits)

lemma Detach_data:
  "Detach p h = Inr (d, h') \<Longrightarrow> data (ports h' p) = None"
  by (auto simp: Detach_def split: option.splits)

section \<open>Posting\<close>

text \<open>
  C6. A post on a port whose sibling pointer is null, with at least one argument: when
  Serialize succeeds, \<^verbatim>\<open>Send\<close> returns with the store as it was, so the message is in no
  queue, and \<^verbatim>\<open>postMessage\<close> leaves no exception pending. When Serialize fails, its
  error is the exception \<^verbatim>\<open>postMessage\<close> leaves pending, and nothing has changed.
\<close>

theorem post_to_null_sibling:
  "(data (ports h p) = Some d \<and> sibling (port_datas h d) = None \<and> args \<noteq> [] \<and>
    Serialize v8 isolate empty_Message (arg args 0) (arg args 1) = (Inr ok, isolate', msg) \<longrightarrow>
      Send p msg h = Inr h \<and>
      PostMessage v8 (Some p) args (isolate, h) = (None, isolate', h)) \<and>
   (data (ports h p) = Some d \<and> args \<noteq> [] \<and>
    Serialize v8 isolate empty_Message (arg args 0) (arg args 1) = (Inl e, isolate', msg) \<longrightarrow>
      PostMessage v8 (Some p) args (isolate, h) = (Some e, isolate, h))"
  by (auto simp: PostMessage_def Send_args_def Send_def dest: Serialize_failure_unchanged)

theorem post_to_null_sibling_witness:
  "data (ports lonely_Heap 0) = Some 0 \<and> sibling (port_datas lonely_Heap 0) = None \<and>
   PostMessage demo_v8 (Some 0) [JSNumber 5] (demo_isolate, lonely_Heap)
     = (None, demo_isolate, lonely_Heap) \<and>
   PostMessage demo_v8 (Some 0) [JSObject] (demo_isolate, lonely_Heap)
     = (Some DataCloneError, demo_isolate, lonely_Heap)"
proof -
  have d: "data (ports lonely_Heap 0) = Some 0" "sibling (port_datas lonely_Heap 0) = None"
    by (simp_all add: lonely_Heap_def)
  have ok: "Serialize demo_v8 demo_isolate empty_Message (arg [JSNumber 5] 0) (arg [JSNumber 5] 1)
              = (Inr True, demo_isolate,
                 \<lparr>main_message_buf = \<lparr>buf_data = Some [255, 13, 73, 5], buf_size = 4\<rparr>,
                   array_buffer_contents = []\<rparr>)"
    by (simp add: Serialize_def read_transfer_list_def arg_def is_empty_def empty_Message_def
        empty_buffer_def WriteValue_def WriteHeader_def new_ValueSerializer_def demo_v8_def
        Release_def)
  have bad: "Serialize demo_v8 demo_isolate empty_Message (arg [JSObject] 0) (arg [JSObject] 1)
               = (Inl DataCloneError, demo_isolate, empty_Message)"
    by (simp add: Serialize_def read_transfer_list_def arg_def is_empty_def empty_Message_def
        empty_buffer_def WriteValue_def WriteHeader_def new_ValueSerializer_def demo_v8_def)
  from post_to_null_sibling [of lonely_Heap 0 0 "[JSNumber 5]" demo_v8 demo_isolate True
      demo_isolate _ DataCloneError] d ok
  have 1: "PostMessage demo_v8 (Some 0) [JSNumber 5] (demo_isolate, lonely_Heap)
             = (None, demo_isolate, lonely_Heap)"
    by simp
  from post_to_null_sibling [of lonely_Heap 0 0 "[JSObject]" demo_v8 demo_isolate True
      demo_isolate empty_Message DataCloneError] d bad
  have 2: "PostMessage demo_v8 (Some 0) [JSObject] (demo_isolate, lonely_Heap)
             = (Some DataCloneError, demo_isolate, lonely_Heap)"
    by simp
  from d 1 2 show ?thesis by simp
qed

text \<open>
  C7. \<^verbatim>\<open>postMessage\<close> on a port without PortData leaves \<open>ERR_CLOSED_MESSAGE_PORT\<close> pending,
  and that is the state of a port after \<^verbatim>\<open>OnClose\<close> and after \<^verbatim>\<open>Detach\<close>; on a port with
  PortData and no argument it leaves \<open>ERR_MISSING_ARGS\<close> pending. In both cases the
  sender's heap and the store are unchanged: nothing was serialized, nothing enqueued.
\<close>

theorem PostMessage_closed_or_missing_args:
  "(data (ports h p) = None \<longrightarrow>
      PostMessage v8 (Some p) args (isolate, h) = (Some ERR_CLOSED_MESSAGE_PORT, isolate, h)) \<and>
   (data (ports h p) \<noteq> None \<longrightarrow>
      PostMessage v8 (Some p) [] (isolate, h) = (Some ERR_MISSING_ARGS, isolate, h)) \<and>
   (OnClose p h0 = Inr h \<longrightarrow>
      PostMessage v8 (Some p) args (isolate, h) = (Some ERR_CLOSED_MESSAGE_PORT, isolate, h)) \<and>
   (Detach p h0 = Inr (d, h) \<longrightarrow>
      PostMessage v8 (Some p) args (isolate, h) = (Some ERR_CLOSED_MESSAGE_PORT, isolate, h))"
  by (auto simp: PostMessage_def dest: OnClose_data Detach_data)

theorem PostMessage_closed_or_missing_args_witness:
  "data (ports lonely_Heap 1) = None \<and>
   PostMessage demo_v8 (Some 1) [JSNumber 5] (demo_isolate, lonely_Heap)
     = (Some ERR_CLOSED_MESSAGE_PORT, demo_isolate, lonely_Heap) \<and>
   data (ports lonely_Heap 0) \<noteq> None \<and>
   PostMessage demo_v8 (Some 0) [] (demo_isolate, lonely_Heap)
     = (Some ERR_MISSING_ARGS, demo_isolate, lonely_Heap)"
  using PostMessage_closed_or_missing_args [of lonely_Heap 1 demo_v8 "[JSNumber 5]" demo_isolate
      lonely_Heap 0]
    PostMessage_closed_or_missing_args [of lonely_Heap 0 demo_v8 "[]" demo_isolate
      lonely_Heap 0]
  by (simp add: lonely_Heap_def)

section \<open>Adopting a PortData\<close>

lemma Detach_lonely_Heap: "Detach 0 lonely_Heap = Inr (0, detached_Heap)"
  by (auto simp: Detach_def lonely_Heap_def detached_Heap_def update_port_def update_data_def
      fun_eq_iff)

lemma next_update [simp]:
  "next_data (update_data d f h) = next_data h" "next_data (update_port p g h) = next_data h"
  "next_port (update_data d f h) = next_port h" "next_port (update_port p g h) = next_port h"
  "next_data (TriggerAsync p h) = next_data h" "next_port (TriggerAsync p h) = next_port h"
  "next_data (PingOwnerAfterDisentanglement d h) = next_data h"
  "next_port (PingOwnerAfterDisentanglement d h) = next_port h"
  by (simp_all add: update_data_def update_port_def TriggerAsync_def
      PingOwnerAfterDisentanglement_def split: option.splits)

lemma async_sends_PingOwner_None [simp]:
  "owner (port_datas h d) = None \<Longrightarrow> PingOwnerAfterDisentanglement d h = h"
  by (simp add: PingOwnerAfterDisentanglement_def)

lemma New_data_adopt:
  assumes "constructor_ok env"
  shows "\<exists>h'. New_data env (Some d) h = Inr (Some (next_port h), h') \<and>
              async_sends (ports h' (next_port h)) = 1 \<and>
              data (ports h' (next_port h)) = Some d \<and>
              owner (port_datas h' d) = Some (next_port h) \<and>
              (d \<noteq> next_data h \<longrightarrow>
                 incoming_messages (port_datas h' d) = incoming_messages (port_datas h d))"
  using assms
  by (simp add: New_data_def New_args_def new_MessagePort_def new_MessagePortData_def Detach_def
      destroy_MessagePortData_def Disentangle_def Let_def update_data_def update_port_def
      TriggerAsync_def PingOwnerAfterDisentanglement_def)

lemma New_data_fresh:
  assumes "constructor_ok env"
  shows "\<exists>h'. New_data env None h = Inr (Some (next_port h), h') \<and>
              async_sends (ports h' (next_port h)) = 0"
  using assms
  by (simp add: New_data_def New_args_def new_MessagePort_def new_MessagePortData_def Let_def)

text \<open>
  C9, as the code has it. When the constructor is available, \<^verbatim>\<open>MessagePort::New\<close> with a
  PortData returns a new port that owns it and has called \<^verbatim>\<open>TriggerAsync\<close> once, whatever
  the queue of the PortData holds (the queue is not read, and it is not changed);
  without a PortData the wake-up is not signalled. So the wake-up is signalled if and
  only if a PortData is adopted, and an empty queue is signalled too.
\<close>

theorem adopt_always_signals:
  "constructor_ok env \<longrightarrow>
     (\<exists>h'. New_data env (Some d) h = Inr (Some (next_port h), h') \<and>
           async_sends (ports h' (next_port h)) = 1 \<and>
           data (ports h' (next_port h)) = Some d \<and>
           owner (port_datas h' d) = Some (next_port h) \<and>
           (d \<noteq> next_data h \<longrightarrow>
              incoming_messages (port_datas h' d) = incoming_messages (port_datas h d))) \<and>
     (\<exists>h'. New_data env None h = Inr (Some (next_port h), h') \<and>
           async_sends (ports h' (next_port h)) = 0)"
  using New_data_adopt New_data_fresh by blast

theorem adopt_always_signals_witness:
  "constructor_ok demo_env \<and> incoming_messages (port_datas detached_Heap 0) = [] \<and>
   (\<exists>h'. New_data demo_env (Some 0) detached_Heap = Inr (Some 1, h') \<and>
         async_sends (ports h' 1) = 1 \<and> data (ports h' 1) = Some 0 \<and>
         owner (port_datas h' 0) = Some 1 \<and> incoming_messages (port_datas h' 0) = [])"
proof -
  have c: "constructor_ok demo_env" by (simp add: demo_env_def)
  have n: "next_port detached_Heap = 1" "next_data detached_Heap = 1"
    "incoming_messages (port_datas detached_Heap 0) = []"
    by (simp_all add: detached_Heap_def)
  from adopt_always_signals [of demo_env 0 detached_Heap] c n show ?thesis
    by auto
qed

text \<open>
  C9 in the words of the specification, signalled if and only if the queue is
  non-empty, fails on \<open>detached_Heap\<close>: the queue of PortData 0 is empty, and the port
  that adopts it has one \<^verbatim>\<open>uv_async_send\<close>.
\<close>

theorem adopt_empty_queue_counterexample:
  "incoming_messages (port_datas detached_Heap 0) = [] \<and>
   fst (projr (New_data demo_env (Some 0) detached_Heap)) = Some 1 \<and>
   async_sends (ports (snd (projr (New_data demo_env (Some 0) detached_Heap))) 1) = 1"
  by (simp add: New_data_def New_args_def new_MessagePort_def new_MessagePortData_def Detach_def
      destroy_MessagePortData_def Disentangle_def Let_def update_data_def update_port_def
      TriggerAsync_def PingOwnerAfterDisentanglement_def detached_Heap_def demo_env_def)

section \<open>Disentangling\<close>

lemma keeps_closed_refl [simp]: "keeps_closed h h"
  by (simp add: keeps_closed_def)

lemma keeps_closed_trans: "keeps_closed h1 h2 \<Longrightarrow> keeps_closed h2 h3 \<Longrightarrow> keeps_closed h1 h3"
  by (auto simp: keeps_closed_def)

lemma keeps_closed_update_port [simp]: "keeps_closed h (update_port p f h)"
  by (simp add: keeps_closed_def)

lemma keeps_closed_TriggerAsync [simp]: "keeps_closed h (TriggerAsync p h)"
  by (simp add: keeps_closed_def)

lemma keeps_closed_PingOwner [simp]: "keeps_closed h (PingOwnerAfterDisentanglement d h)"
  by (simp add: keeps_closed_def)

lemma keeps_closed_update_data:
  "sibling (f (port_datas h d)) = sibling (port_datas h d) \<or> sibling (f (port_datas h d)) = None
     \<Longrightarrow> keeps_closed h (update_data d f h)"
  by (auto simp: keeps_closed_def)

lemma next_data_Disentangle [simp]: "next_data (Disentangle d h) = next_data h"
  by (simp add: Disentangle_def Let_def update_data_def split: option.splits)

lemma sibling_Disentangle:
  "sibling (port_datas (Disentangle d h) x) = None \<or>
   sibling (port_datas (Disentangle d h) x) = sibling (port_datas h x)"
  by (simp add: Disentangle_def Let_def update_data_def split: option.splits)

lemma keeps_closed_Disentangle [simp]: "keeps_closed h (Disentangle d h)"
proof -
  have "sibling (port_datas (Disentangle d h) x) = None" if "sibling (port_datas h x) = None"
    for x
    using sibling_Disentangle [of d h x] that by auto
  then show ?thesis
    by (simp add: keeps_closed_def)
qed

lemma keeps_closed_AddToIncomingQueue [simp]: "keeps_closed h (data_AddToIncomingQueue d m h)"
  by (auto simp: data_AddToIncomingQueue_def Let_def keeps_closed_def split: option.splits)

lemma keeps_closed_destroy: "destroy_MessagePortData d h = Inr h' \<Longrightarrow> keeps_closed h h'"
  by (auto simp: destroy_MessagePortData_def split: if_splits)

lemma keeps_closed_OnClose: "OnClose p h = Inr h' \<Longrightarrow> keeps_closed h h'"
proof -
  assume a: "OnClose p h = Inr h'"
  show ?thesis
  proof (cases "data (ports h p)")
    case None
    with a show ?thesis by (simp add: OnClose_def)
  next
    case (Some d)
    let ?h1 = "update_data d (\<lambda>pd. pd\<lparr>owner := None\<rparr>) h"
    from a Some obtain h3 where
      d: "destroy_MessagePortData d (Disentangle d ?h1) = Inr h3" and
      h': "h' = update_port p (\<lambda>port. port\<lparr>data := None\<rparr>) h3"
      by (auto simp: OnClose_def Let_def split: sum.splits)
    have "keeps_closed h ?h1"
      by (rule keeps_closed_update_data) simp
    then have "keeps_closed h (Disentangle d ?h1)"
      by (rule keeps_closed_trans) simp
    then have "keeps_closed h h3"
      by (rule keeps_closed_trans) (rule keeps_closed_destroy [OF d])
    then show ?thesis
      unfolding h' by (rule keeps_closed_trans) simp
  qed
qed

lemma keeps_closed_Close: "Close p h = Inr h' \<Longrightarrow> keeps_closed h h'"
proof -
  assume a: "Close p h = Inr h'"
  show ?thesis
  proof (cases "handle_closed (ports h p)")
    case True
    with a show ?thesis by (simp add: Close_def)
  next
    case False
    with a have "OnClose p (update_port p (\<lambda>port. port\<lparr>handle_closed := True\<rparr>) h) = Inr h'"
      by (simp add: Close_def)
    from keeps_closed_OnClose [OF this] show ?thesis
      by (rule keeps_closed_trans [rotated]) simp
  qed
qed

lemma keeps_closed_Start: "Start p h = Inr h' \<Longrightarrow> keeps_closed h h'"
  by (auto simp: Start_def Let_def keeps_closed_def split: option.splits if_splits)

lemma keeps_closed_Stop: "Stop p h = Inr h' \<Longrightarrow> keeps_closed h h'"
  by (auto simp: Stop_def keeps_closed_def split: option.splits)

lemma keeps_closed_Send: "Send p m h = Inr h' \<Longrightarrow> keeps_closed h h'"
  by (auto simp: Send_def split: option.splits)

lemma keeps_closed_PostMessage:
  "keeps_closed h (snd (snd (PostMessage v8 this args (isolate, h))))"
  by (auto simp: PostMessage_def Send_args_def split: option.splits sum.splits prod.splits
      dest: keeps_closed_Send)

lemma keeps_closed_Start_args: "keeps_closed h (snd (Start_args this h))"
  by (auto simp: Start_args_def split: option.splits sum.splits dest: keeps_closed_Start)

lemma keeps_closed_Stop_args: "keeps_closed h (snd (Stop_args this h))"
  by (auto simp: Stop_args_def split: option.splits sum.splits dest: keeps_closed_Stop)

lemma keeps_closed_body:
  "OnMessage_body v8 env p (h, calls) = (c, h', calls') \<Longrightarrow> keeps_closed h h'"
  by (auto simp: OnMessage_body_def Let_def keeps_closed_def
      split: option.splits if_splits list.splits)

lemma keeps_closed_loop:
  "OnMessage_loop v8 env p st = (c, h', calls') \<Longrightarrow> keeps_closed (fst st) h'"
proof (induction v8 env p st rule: OnMessage_loop.induct)
  case (1 v8 env p st)
  obtain c1 h1 calls1 where b: "OnMessage_body v8 env p st = (c1, h1, calls1)"
    by (metis prod_cases3)
  then have k: "keeps_closed (fst st) h1"
    using keeps_closed_body [of v8 env p "fst st" "snd st"] by simp
  show ?case
  proof (cases c1)
    case Continue
    with b "1.prems" have "OnMessage_loop v8 env p (h1, calls1) = (c, h', calls')"
      by (subst (asm) OnMessage_loop.simps) simp
    from "1.IH" [OF b [symmetric] Continue this] have "keeps_closed h1 h'" by simp
    with k show ?thesis by (rule keeps_closed_trans)
  next
    case Break
    with b "1.prems" have "h' = h1" by (subst (asm) OnMessage_loop.simps) simp
    with k show ?thesis by simp
  next
    case Return
    with b "1.prems" have "h' = h1" by (subst (asm) OnMessage_loop.simps) simp
    with k show ?thesis by simp
  qed
qed

lemma keeps_closed_OnMessage: "OnMessage v8 env p h = Inr (h', calls) \<Longrightarrow> keeps_closed h h'"
proof -
  assume a: "OnMessage v8 env p h = Inr (h', calls)"
  obtain c h1 calls1 where l: "OnMessage_loop v8 env p (h, []) = (c, h1, calls1)"
    by (metis prod_cases3)
  from keeps_closed_loop [OF l] have k: "keeps_closed h h1" by simp
  from a l have "h' = h1 \<or> Close p h1 = Inr h'"
    by (auto simp: OnMessage_def split: control.splits option.splits if_splits sum.splits)
  with k show ?thesis
    by (auto dest: keeps_closed_Close intro: keeps_closed_trans)
qed

lemma new_MessagePort_frame:
  "new_MessagePort h = (p, h') \<Longrightarrow>
     p = next_port h \<and> data (ports h' p) = Some (next_data h) \<and>
     next_data h' = Suc (next_data h) \<and> next_port h' = Suc (next_port h) \<and>
     sibling (port_datas h' (next_data h)) = None \<and>
     (\<forall>d. d \<noteq> next_data h \<longrightarrow> port_datas h' d = port_datas h d) \<and>
     (\<forall>q. q \<noteq> next_port h \<longrightarrow> ports h' q = ports h q)"
  by (auto simp: new_MessagePort_def new_MessagePortData_def Let_def)

lemma keeps_closed_new_MessagePort: "new_MessagePort h = (p, h') \<Longrightarrow> keeps_closed h h'"
  by (drule new_MessagePort_frame) (auto simp: keeps_closed_def)

lemma keeps_closed_Detach: "Detach p h = Inr (d, h') \<Longrightarrow> keeps_closed h h'"
  by (auto simp: Detach_def keeps_closed_def split: option.splits)

lemma keeps_closed_New_data: "New_data env d h = Inr (p, h') \<Longrightarrow> keeps_closed h h'"
proof -
  assume a: "New_data env d h = Inr (p, h')"
  show ?thesis
  proof (cases "constructor_ok env")
    case False
    with a show ?thesis
      by (auto simp: New_data_def split: option.splits sum.splits dest: keeps_closed_destroy)
  next
    case True
    obtain q h1 where n: "new_MessagePort h = (q, h1)" by (cases "new_MessagePort h")
    from keeps_closed_new_MessagePort [OF n] have k1: "keeps_closed h h1" .
    show ?thesis
    proof (cases d)
      case None
      with a True n have "h' = h1" by (simp add: New_data_def New_args_def)
      with k1 show ?thesis by simp
    next
      case (Some d')
      with a True n obtain old h2 h3 where
        t: "Detach q h1 = Inr (old, h2)" and
        y: "destroy_MessagePortData old h2 = Inr h3" and
        h': "h' = TriggerAsync q (update_data d' (\<lambda>pd. pd\<lparr>owner := Some q\<rparr>)
                    (update_port q (\<lambda>x. x\<lparr>data := Some d'\<rparr>) h3))"
        by (auto simp: New_data_def New_args_def Let_def split: sum.splits)
      have "keeps_closed h1 h2" by (rule keeps_closed_Detach [OF t])
      with k1 have "keeps_closed h h2" by (rule keeps_closed_trans)
      then have "keeps_closed h h3"
        by (rule keeps_closed_trans) (rule keeps_closed_destroy [OF y])
      moreover have "keeps_closed h3 h'"
        unfolding h' by (auto simp: keeps_closed_def)
      ultimately show ?thesis by (rule keeps_closed_trans)
    qed
  qed
qed

lemma New_data_fresh_frame:
  "New_data env None h = Inr (Some p, h') \<Longrightarrow> new_MessagePort h = (p, h')"
  by (auto simp: New_data_def New_args_def split: if_splits sum.splits prod.splits)

lemma keeps_closed_MessageChannel:
  "MessageChannel env c h = Inr (ps, h') \<Longrightarrow> keeps_closed h h'"
proof -
  assume a: "MessageChannel env c h = Inr (ps, h')"
  then obtain p1 h1 p2 h2 where
    n1: "New_data env None h = Inr (Some p1, h1)" and
    n2: "New_data env None h1 = Inr (Some p2, h2)" and
    e: "Entangle p1 p2 h2 = Inr h'"
    by (auto simp: MessageChannel_def split: if_splits sum.splits option.splits prod.splits)
  note f1 = new_MessagePort_frame [OF New_data_fresh_frame [OF n1]]
  note f2 = new_MessagePort_frame [OF New_data_fresh_frame [OF n2]]
  from f1 f2 have d1: "data (ports h2 p1) = Some (next_data h)"
    and d2: "data (ports h2 p2) = Some (Suc (next_data h))"
    by auto
  from f1 f2 have same: "port_datas h2 d = port_datas h d" if "d < next_data h" for d
    using that by auto
  from e d1 d2 have en: "data_Entangle (next_data h) (Suc (next_data h)) h2 = Inr h'"
    by (simp add: Entangle_def)
  then have ent: "port_datas h' d = port_datas h2 d" if "d < next_data h" for d
    using that by (auto simp: data_Entangle_def Let_def split: if_splits)
  from en have nd: "next_data h' = next_data h2"
    by (auto simp: data_Entangle_def Let_def split: if_splits)
  from nd f1 f2 have "next_data h \<le> next_data h'" by simp
  with same ent show ?thesis
    by (simp add: keeps_closed_def)
qed

lemma keeps_closed_after_op:
  "after_op v8 env x (isolate, h) = (isolate', h') \<Longrightarrow> keeps_closed h h'"
proof (cases x)
  case (Op_PostMessage p args)
  assume "after_op v8 env x (isolate, h) = (isolate', h')"
  with Op_PostMessage keeps_closed_PostMessage [of h v8 "Some p" args isolate]
  show ?thesis by simp
next
  case (Op_Start p)
  assume "after_op v8 env x (isolate, h) = (isolate', h')"
  with Op_Start keeps_closed_Start_args [of h "Some p"] show ?thesis by auto
next
  case (Op_Stop p)
  assume "after_op v8 env x (isolate, h) = (isolate', h')"
  with Op_Stop keeps_closed_Stop_args [of h "Some p"] show ?thesis by auto
next
  case (Op_Close p)
  assume "after_op v8 env x (isolate, h) = (isolate', h')"
  with Op_Close show ?thesis by (auto split: sum.splits dest: keeps_closed_Close)
next
  case (Op_OnMessage p)
  assume "after_op v8 env x (isolate, h) = (isolate', h')"
  with Op_OnMessage show ?thesis by (auto split: sum.splits dest: keeps_closed_OnMessage)
next
  case (Op_New d)
  assume "after_op v8 env x (isolate, h) = (isolate', h')"
  with Op_New show ?thesis by (auto split: sum.splits dest: keeps_closed_New_data)
next
  case (Op_Detach p)
  assume "after_op v8 env x (isolate, h) = (isolate', h')"
  with Op_Detach show ?thesis by (auto split: sum.splits dest: keeps_closed_Detach)
next
  case (Op_AddToIncomingQueue d m)
  assume "after_op v8 env x (isolate, h) = (isolate', h')"
  with Op_AddToIncomingQueue show ?thesis by auto
next
  case (Op_Disentangle d)
  assume "after_op v8 env x (isolate, h) = (isolate', h')"
  with Op_Disentangle show ?thesis by auto
next
  case Op_MessageChannel
  assume "after_op v8 env x (isolate, h) = (isolate', h')"
  with Op_MessageChannel show ?thesis
    by (auto split: sum.splits dest: keeps_closed_MessageChannel)
qed

lemma keeps_closed_after_ops:
  "after_ops v8 env xs (isolate, h) = (isolate', h') \<Longrightarrow> keeps_closed h h'"
proof (induction xs arbitrary: isolate h)
  case Nil
  then show ?case by simp
next
  case (Cons x xs)
  obtain i1 h1 where s: "after_op v8 env x (isolate, h) = (i1, h1)"
    by (cases "after_op v8 env x (isolate, h)")
  with Cons.prems have "after_ops v8 env xs (i1, h1) = (isolate', h')" by simp
  from keeps_closed_after_op [OF s] Cons.IH [OF this] show ?case
    by (rule keeps_closed_trans)
qed

lemma Disentangle_sibling_mutex:
  assumes "sibling (port_datas h a) = Some b" and "a \<noteq> b"
  shows "sibling_mutex (port_datas (Disentangle a h) a) = mutexes h"
    and "sibling_mutex (port_datas (Disentangle a h) b) = sibling_mutex (port_datas h b)"
    and "sibling (port_datas (Disentangle a h) a) = None"
    and "sibling (port_datas (Disentangle a h) b) = None"
    and "mutexes (Disentangle a h) = Suc (mutexes h)"
  using assms by (simp_all add: Disentangle_def Let_def update_data_def)

text \<open>
  C5, as the code has it. Let \<open>a\<close> and \<open>b\<close> be entangled, sharing a mutex that was
  allocated before. After \<open>Disentangle\<close> on \<open>a\<close>, \<open>a\<close> holds the mutex that this call
  allocated, \<open>b\<close> still holds the mutex the two shared, so the two mutexes differ;
  \<^verbatim>\<open>IsSiblingClosed\<close> is true on both, and it is true on both after any sequence of the
  operations above.
\<close>

theorem Disentangle_closes_both:
  assumes "sibling (port_datas h a) = Some b" and "sibling (port_datas h b) = Some a"
    and "a \<noteq> b"
    and "sibling_mutex (port_datas h a) = sibling_mutex (port_datas h b)"
    and "sibling_mutex (port_datas h b) < mutexes h"
    and "a < next_data h" and "b < next_data h"
  shows "sibling_mutex (port_datas (Disentangle a h) a) = mutexes h \<and>
         mutexes (Disentangle a h) = Suc (mutexes h) \<and>
         sibling_mutex (port_datas (Disentangle a h) b) = sibling_mutex (port_datas h b) \<and>
         sibling_mutex (port_datas (Disentangle a h) a)
           \<noteq> sibling_mutex (port_datas (Disentangle a h) b) \<and>
         data_IsSiblingClosed a (Disentangle a h) \<and>
         data_IsSiblingClosed b (Disentangle a h) \<and>
         (\<forall>xs isolate.
            data_IsSiblingClosed a (snd (after_ops v8 env xs (isolate, Disentangle a h))) \<and>
            data_IsSiblingClosed b (snd (after_ops v8 env xs (isolate, Disentangle a h))))"
proof -
  note d = Disentangle_sibling_mutex [OF assms(1) assms(3)]
  have later:
    "data_IsSiblingClosed a (snd (after_ops v8 env xs (isolate, Disentangle a h))) \<and>
     data_IsSiblingClosed b (snd (after_ops v8 env xs (isolate, Disentangle a h)))"
    for xs isolate
  proof -
    obtain i' h' where r: "after_ops v8 env xs (isolate, Disentangle a h) = (i', h')"
      by (cases "after_ops v8 env xs (isolate, Disentangle a h)")
    from keeps_closed_after_ops [OF r] d(3,4) assms(6,7) show ?thesis
      by (simp add: r keeps_closed_def data_IsSiblingClosed_def)
  qed
  from d assms(5) later show ?thesis
    by (simp add: data_IsSiblingClosed_def)
qed

theorem Disentangle_closes_both_witness:
  "sibling (port_datas channel_Heap 0) = Some 1 \<and>
   sibling (port_datas channel_Heap 1) = Some 0 \<and>
   sibling_mutex (port_datas channel_Heap 0) = sibling_mutex (port_datas channel_Heap 1) \<and>
   sibling_mutex (port_datas channel_Heap 1) < mutexes channel_Heap \<and>
   0 < next_data channel_Heap \<and> 1 < next_data channel_Heap \<and>
   data_IsSiblingClosed 0 (Disentangle 0 channel_Heap) \<and>
   data_IsSiblingClosed 1 (Disentangle 0 channel_Heap) \<and>
   data_IsSiblingClosed 1
     (snd (after_ops demo_v8 demo_env
        [Op_PostMessage 1 [JSNumber 5], Op_Start 0, Op_OnMessage 0, Op_MessageChannel]
        (demo_isolate, Disentangle 0 channel_Heap)))"
proof -
  have a: "sibling (port_datas channel_Heap 0) = Some 1"
    "sibling (port_datas channel_Heap 1) = Some 0" "(0::nat) \<noteq> 1"
    "sibling_mutex (port_datas channel_Heap 0) = sibling_mutex (port_datas channel_Heap 1)"
    "sibling_mutex (port_datas channel_Heap 1) < mutexes channel_Heap"
    "0 < next_data channel_Heap" "1 < next_data channel_Heap"
    by (simp_all add: channel_Heap_def)
  from Disentangle_closes_both [OF a, of demo_v8 demo_env]
  have "data_IsSiblingClosed 0 (Disentangle 0 channel_Heap)"
    "data_IsSiblingClosed 1 (Disentangle 0 channel_Heap)"
    "data_IsSiblingClosed 1
       (snd (after_ops demo_v8 demo_env
          [Op_PostMessage 1 [JSNumber 5], Op_Start 0, Op_OnMessage 0, Op_MessageChannel]
          (demo_isolate, Disentangle 0 channel_Heap)))"
    by blast+
  with a show ?thesis
    by blast
qed

text \<open>
  C5 in the words of the specification, each of the two holding a freshly allocated
  mutex, fails on the channel: after \<open>Disentangle\<close> on PortData 0, PortData 1 holds
  mutex 1, which it held before the call, and only PortData 0 holds the new mutex 2.
\<close>

theorem Disentangle_sibling_keeps_old_mutex_counterexample:
  "sibling (port_datas channel_Heap 0) = Some 1 \<and>
   sibling (port_datas channel_Heap 1) = Some 0 \<and>
   sibling_mutex (port_datas channel_Heap 0) = 1 \<and>
   sibling_mutex (port_datas channel_Heap 1) = 1 \<and>
   mutexes channel_Heap = 2 \<and>
   sibling_mutex (port_datas (Disentangle 0 channel_Heap) 0) = 2 \<and>
   sibling_mutex (port_datas (Disentangle 0 channel_Heap) 1) = 1"
  by (simp add: Disentangle_def Let_def update_data_def channel_Heap_def
      PingOwnerAfterDisentanglement_def TriggerAsync_def update_port_def)

text \<open>
  \<^verbatim>\<open>MessagePortData::Entangle\<close> accepts two disentangled PortData, and after it
  \<^verbatim>\<open>IsSiblingClosed\<close> is false again.
\<close>

lemma Entangle_again_reopens:
  "\<not> data_IsSiblingClosed 0 (projr (data_Entangle 0 1 (Disentangle 0 channel_Heap)))"
  by (simp add: data_Entangle_def data_IsSiblingClosed_def Disentangle_def Let_def
      update_data_def channel_Heap_def PingOwnerAfterDisentanglement_def TriggerAsync_def
      update_port_def)

section \<open>The delivery loop\<close>

lemma owner_Disentangle [simp]:
  "owner (port_datas (Disentangle d h) x) = owner (port_datas h x)"
  by (simp add: Disentangle_def Let_def update_data_def split: option.splits)

lemma Close_open_handle:
  assumes "\<not> handle_closed (ports h p)"
  shows "\<exists>h'. Close p h = Inr h' \<and> handle_closed (ports h' p) \<and> data (ports h' p) = None"
  using assms
  by (cases "data (ports h p)")
     (simp_all add: Close_def OnClose_def destroy_MessagePortData_def Let_def)

lemma OnMessage_body_frame:
  assumes "OnMessage_body v8 env p (h, calls) = (c, h', calls')"
  shows "data (ports h' q) = data (ports h q)"
    and "handle_closed (ports h' q) = handle_closed (ports h q)"
    and "sibling (port_datas h' x) = sibling (port_datas h x)"
    and "receiving_messages (port_datas h' x) = receiving_messages (port_datas h x)"
  using assms
  by (auto simp: OnMessage_body_def Let_def split: option.splits if_splits list.splits)

lemma OnMessage_loop_frame:
  "OnMessage_loop v8 env p st = (c, h', calls') \<Longrightarrow>
     data (ports h' q) = data (ports (fst st) q) \<and>
     handle_closed (ports h' q) = handle_closed (ports (fst st) q) \<and>
     sibling (port_datas h' x) = sibling (port_datas (fst st) x) \<and>
     receiving_messages (port_datas h' x) = receiving_messages (port_datas (fst st) x)"
proof (induction v8 env p st rule: OnMessage_loop.induct)
  case (1 v8 env p st)
  obtain c1 h1 calls1 where b: "OnMessage_body v8 env p st = (c1, h1, calls1)"
    by (metis prod_cases3)
  then have b': "OnMessage_body v8 env p (fst st, snd st) = (c1, h1, calls1)" by simp
  note f = OnMessage_body_frame [OF b']
  show ?case
  proof (cases c1)
    case Continue
    with b "1.prems" have "OnMessage_loop v8 env p (h1, calls1) = (c, h', calls')"
      by (subst (asm) OnMessage_loop.simps) simp
    from "1.IH" [OF b [symmetric] Continue this] f show ?thesis by simp
  next
    case Break
    with b "1.prems" have "h' = h1" by (subst (asm) OnMessage_loop.simps) simp
    with f show ?thesis by simp
  next
    case Return
    with b "1.prems" have "h' = h1" by (subst (asm) OnMessage_loop.simps) simp
    with f show ?thesis by simp
  qed
qed

lemma OnMessage_loop_exit:
  "OnMessage_loop v8 env p st = (c, h', calls') \<Longrightarrow>
     c \<noteq> Continue \<and>
     (c = Break \<longrightarrow>
        (\<forall>d. data (ports h' p) = Some d \<and> receiving_messages (port_datas h' d) \<longrightarrow>
               incoming_messages (port_datas h' d) = []))"
proof (induction v8 env p st rule: OnMessage_loop.induct)
  case (1 v8 env p st)
  obtain c1 h1 calls1 where b: "OnMessage_body v8 env p st = (c1, h1, calls1)"
    by (metis prod_cases3)
  show ?case
  proof (cases c1)
    case Continue
    with b "1.prems" have "OnMessage_loop v8 env p (h1, calls1) = (c, h', calls')"
      by (subst (asm) OnMessage_loop.simps) simp
    from "1.IH" [OF b [symmetric] Continue this] show ?thesis .
  next
    case Break
    with b "1.prems" have e: "h' = h1" "c = Break" by (subst (asm) OnMessage_loop.simps, simp)+
    from b Break have "\<forall>d. data (ports h1 p) = Some d \<and> receiving_messages (port_datas h1 d) \<longrightarrow>
               incoming_messages (port_datas h1 d) = []"
      by (cases st)
         (auto simp: OnMessage_body_def Let_def split: option.splits if_splits list.splits)
    with e show ?thesis by simp
  next
    case Return
    with b "1.prems" have "c = Return" by (subst (asm) OnMessage_loop.simps) simp
    then show ?thesis by simp
  qed
qed

text \<open>
  C3, as the code has it. Let the loop of \<^verbatim>\<open>OnMessage\<close> end with \<open>c\<close> in the store \<open>h1\<close>,
  on a port whose handle is open. Then \<^verbatim>\<open>OnMessage\<close> returns, and it has closed the port
  if and only if the loop was left by \<open>Break\<close> (not by the \<^verbatim>\<open>return\<close> of line 358), the
  port still has its PortData and the sibling pointer of that PortData is null. The
  queue is not asked: it is empty at that point when the port is receiving, and only
  then.
\<close>

theorem OnMessage_close_condition:
  assumes "OnMessage_loop v8 env p (h, []) = (c, h1, calls)"
    and "\<not> handle_closed (ports h p)"
  shows "\<exists>h2. OnMessage v8 env p h = Inr (h2, calls) \<and>
           (handle_closed (ports h2 p) \<longleftrightarrow>
              c = Break \<and> (\<exists>d. data (ports h1 p) = Some d \<and> data_IsSiblingClosed d h1)) \<and>
           (c = Break \<longrightarrow>
              (\<forall>d. data (ports h1 p) = Some d \<and> receiving_messages (port_datas h1 d) \<longrightarrow>
                     incoming_messages (port_datas h1 d) = []))"
proof -
  from OnMessage_loop_frame [OF assms(1), of p] assms(2)
  have open1: "\<not> handle_closed (ports h1 p)" by simp
  from OnMessage_loop_exit [OF assms(1)] have c: "c = Break \<or> c = Return"
    and drained: "c = Break \<longrightarrow>
              (\<forall>d. data (ports h1 p) = Some d \<and> receiving_messages (port_datas h1 d) \<longrightarrow>
                     incoming_messages (port_datas h1 d) = [])"
    by (cases c, auto)
  from Close_open_handle [OF open1] obtain h2 where
    h2: "Close p h1 = Inr h2" "handle_closed (ports h2 p)"
    by blast
  show ?thesis
  proof (cases "c = Break \<and> (\<exists>d. data (ports h1 p) = Some d \<and> data_IsSiblingClosed d h1)")
    case True
    with assms(1) h2 have "OnMessage v8 env p h = Inr (h2, calls)"
      by (auto simp: OnMessage_def)
    with True h2 drained show ?thesis by auto
  next
    case False
    with assms(1) c have "OnMessage v8 env p h = Inr (h1, calls)"
      by (auto simp: OnMessage_def split: option.splits)
    with False open1 drained show ?thesis by auto
  qed
qed

theorem OnMessage_close_condition_witness:
  "OnMessage_loop demo_v8 demo_env 0 (queued_Heap False [demo_Message], [])
     = (Break, queued_Heap False [demo_Message], []) \<and>
   \<not> handle_closed (ports (queued_Heap False [demo_Message]) 0) \<and>
   data (ports (queued_Heap False [demo_Message]) 0) = Some 0 \<and>
   data_IsSiblingClosed 0 (queued_Heap False [demo_Message]) \<and>
   (\<exists>h2. OnMessage demo_v8 demo_env 0 (queued_Heap False [demo_Message]) = Inr (h2, []) \<and>
         handle_closed (ports h2 0))"
proof -
  let ?h = "queued_Heap False [demo_Message]"
  have l: "OnMessage_loop demo_v8 demo_env 0 (?h, []) = (Break, ?h, [])"
    by (subst OnMessage_loop.simps)
       (simp add: OnMessage_body_def queued_Heap_def lonely_Heap_def)
  have o: "\<not> handle_closed (ports ?h 0)" "data (ports ?h 0) = Some 0"
    "data_IsSiblingClosed 0 ?h"
    by (simp_all add: queued_Heap_def lonely_Heap_def data_IsSiblingClosed_def)
  from OnMessage_close_condition [OF l o(1)] o(2,3)
  have "\<exists>h2. OnMessage demo_v8 demo_env 0 ?h = Inr (h2, []) \<and> handle_closed (ports h2 0)"
    by auto
  with l o show ?thesis by blast
qed

text \<open>
  C3 in the words of the specification, closed only if the queue is empty as well,
  fails on a port that was never started: the loop is left at once, one message is
  still in the queue, the sibling pointer is null, and \<^verbatim>\<open>OnMessage\<close> closes the port.
\<close>

theorem OnMessage_closes_stopped_port_counterexample:
  "fst (OnMessage_loop demo_v8 demo_env 0 (queued_Heap False [demo_Message], [])) = Break \<and>
   incoming_messages
     (port_datas (fst (snd (OnMessage_loop demo_v8 demo_env 0
                              (queued_Heap False [demo_Message], [])))) 0) = [demo_Message] \<and>
   data_IsSiblingClosed 0 (queued_Heap False [demo_Message]) \<and>
   handle_closed
     (ports (fst (projr (OnMessage demo_v8 demo_env 0 (queued_Heap False [demo_Message])))) 0)"
proof -
  have l: "OnMessage_loop demo_v8 demo_env 0 (queued_Heap False [demo_Message], [])
             = (Break, queued_Heap False [demo_Message], [])"
    by (subst OnMessage_loop.simps)
       (simp add: OnMessage_body_def queued_Heap_def lonely_Heap_def)
  have c: "data_IsSiblingClosed 0 (queued_Heap False [demo_Message])"
    "incoming_messages (port_datas (queued_Heap False [demo_Message]) 0) = [demo_Message]"
    "data (ports (queued_Heap False [demo_Message]) 0) = Some 0"
    by (simp_all add: queued_Heap_def lonely_Heap_def data_IsSiblingClosed_def)
  have "handle_closed (ports (projr (Close 0 (queued_Heap False [demo_Message]))) 0)"
    by (simp add: queued_Heap_def lonely_Heap_def Close_def OnClose_def
        destroy_MessagePortData_def Let_def)
  then have "handle_closed
     (ports (fst (projr (OnMessage demo_v8 demo_env 0 (queued_Heap False [demo_Message])))) 0)"
    by (simp add: OnMessage_def l c)
       (simp add: queued_Heap_def lonely_Heap_def Close_def OnClose_def
          destroy_MessagePortData_def Let_def)
  with l c show ?thesis
    by simp
qed

text \<open>
  C4, as the code has it. When the port is receiving, user code may run and the message
  at the head of the queue fails to deserialize, the loop takes that message off the
  queue, calls \<^verbatim>\<open>TriggerAsync\<close> once and returns: \<^verbatim>\<open>OnMessage\<close> is over, the port is neither
  closed nor detached, the rest of the queue waits for the next wake-up, and
  \<^verbatim>\<open>onmessage\<close> has not been called.
\<close>

theorem Deserialize_failure_in_delivery:
  assumes "data (ports h p) = Some d"
    and "receiving_messages (port_datas h d)"
    and "incoming_messages (port_datas h d) = m # queue"
    and "can_call_into_js env"
    and "fst (Deserialize v8 m) = None"
  shows "\<exists>h'. OnMessage_loop v8 env p (h, calls) = (Return, h', calls) \<and>
              OnMessage v8 env p h = Inr (h', []) \<and>
              incoming_messages (port_datas h' d) = queue \<and>
              async_sends (ports h' p) = Suc (async_sends (ports h p)) \<and>
              handle_closed (ports h' p) = handle_closed (ports h p) \<and>
              data (ports h' p) = Some d"
proof -
  let ?h' = "TriggerAsync p (update_data d (\<lambda>pd. pd\<lparr>incoming_messages := queue\<rparr>) h)"
  have b: "OnMessage_body v8 env p (h, calls) = (Return, ?h', calls)" for calls
    using assms by (simp add: OnMessage_body_def Let_def)
  have l: "OnMessage_loop v8 env p (h, calls) = (Return, ?h', calls)" for calls
    by (subst OnMessage_loop.simps) (simp add: b)
  have "OnMessage v8 env p h = Inr (?h', [])"
    by (simp add: OnMessage_def l)
  with l [of calls] assms(1) show ?thesis
    by simp
qed

theorem Deserialize_failure_in_delivery_witness:
  "data (ports (queued_Heap True [demo_Message, empty_Message]) 0) = Some 0 \<and>
   receiving_messages (port_datas (queued_Heap True [demo_Message, empty_Message]) 0) \<and>
   incoming_messages (port_datas (queued_Heap True [demo_Message, empty_Message]) 0)
     = [demo_Message, empty_Message] \<and>
   can_call_into_js demo_env \<and>
   fst (Deserialize demo_v8 demo_Message) = None \<and>
   (\<exists>h'. OnMessage demo_v8 demo_env 0 (queued_Heap True [demo_Message, empty_Message])
           = Inr (h', []) \<and>
         incoming_messages (port_datas h' 0) = [empty_Message] \<and>
         async_sends (ports h' 0) = 1)"
proof -
  let ?h = "queued_Heap True [demo_Message, empty_Message]"
  have d: "fst (Deserialize demo_v8 demo_Message) = None"
    by (simp add: Deserialize_def Let_def ReadHeader_def des_input_def demo_Message_def
        demo_v8_def attach_loop_eq new_ValueDeserializer_def split: prod.splits)
  have q: "data (ports ?h 0) = Some 0" "receiving_messages (port_datas ?h 0)"
    "incoming_messages (port_datas ?h 0) = [demo_Message, empty_Message]"
    by (simp_all add: queued_Heap_def lonely_Heap_def)
  have e: "can_call_into_js demo_env"
    by (simp add: demo_env_def)
  have a: "async_sends (ports ?h 0) = 0"
    by (simp add: queued_Heap_def lonely_Heap_def)
  from Deserialize_failure_in_delivery [OF q e d, of "[]"] a
  have "\<exists>h'. OnMessage demo_v8 demo_env 0 ?h = Inr (h', []) \<and>
             incoming_messages (port_datas h' 0) = [empty_Message] \<and>
             async_sends (ports h' 0) = 1"
    by auto
  with q e d show ?thesis by blast
qed

text \<open>
  C4 in the words of the specification, \<^verbatim>\<open>onmessage\<close> called with an empty argument,
  fails on a receiving port whose only message has a header the decoder refuses: user
  code may run, the object has an \<^verbatim>\<open>onmessage\<close>, and \<^verbatim>\<open>OnMessage\<close> ends with no call made.
\<close>

theorem Deserialize_failure_no_callback_counterexample:
  "fst (Deserialize demo_v8 demo_Message) = None \<and>
   can_call_into_js demo_env \<and> has_onmessage demo_env \<and>
   receiving_messages (port_datas (queued_Heap True [demo_Message]) 0) \<and>
   incoming_messages (port_datas (queued_Heap True [demo_Message]) 0) = [demo_Message] \<and>
   snd (projr (OnMessage demo_v8 demo_env 0 (queued_Heap True [demo_Message]))) = []"
proof -
  let ?h = "queued_Heap True [demo_Message]"
  have d: "fst (Deserialize demo_v8 demo_Message) = None"
    by (simp add: Deserialize_def Let_def ReadHeader_def des_input_def demo_Message_def
        demo_v8_def attach_loop_eq new_ValueDeserializer_def split: prod.splits)
  have q: "data (ports ?h 0) = Some 0" "receiving_messages (port_datas ?h 0)"
    "incoming_messages (port_datas ?h 0) = [demo_Message]"
    by (simp_all add: queued_Heap_def lonely_Heap_def)
  have e: "can_call_into_js demo_env" "has_onmessage demo_env"
    by (simp_all add: demo_env_def)
  have b: "OnMessage_body demo_v8 demo_env 0 (?h, [])
             = (Return, TriggerAsync 0 (update_data 0 (\<lambda>pd. pd\<lparr>incoming_messages := []\<rparr>) ?h), [])"
    using d q e by (simp add: OnMessage_body_def Let_def)
  have "OnMessage demo_v8 demo_env 0 ?h
          = Inr (TriggerAsync 0 (update_data 0 (\<lambda>pd. pd\<lparr>incoming_messages := []\<rparr>) ?h), [])"
    by (simp add: OnMessage_def) (subst OnMessage_loop.simps, simp add: b)
  with d q e show ?thesis
    by simp
qed

section \<open>Order of delivery\<close>

lemma posted_append: "posted (xs @ ys) = posted xs @ posted ys"
  by (induction xs rule: posted.induct) simp_all

lemma map_filter_append:
  "List.map_filter f (xs @ ys) = List.map_filter f xs @ List.map_filter f ys"
  by (simp add: List.map_filter_def)

lemma map_filter_single:
  "List.map_filter f [x] = (case f x of None \<Rightarrow> [] | Some y \<Rightarrow> [y])"
  by (simp add: List.map_filter_def split: option.splits)

lemma OnMessage_body_queue:
  assumes "OnMessage_body v8 env p (h, calls) = (c, h', calls')"
    and "data (ports h p) = Some d"
  shows "(c \<noteq> Continue \<and> incoming_messages (port_datas h' d) = incoming_messages (port_datas h d)
            \<and> calls' = calls) \<or>
         (\<exists>m. incoming_messages (port_datas h d) = m # incoming_messages (port_datas h' d) \<and>
              calls' = calls @ List.map_filter (callback_value v8 env) [m])"
  using assms
  by (auto simp: OnMessage_body_def Let_def callback_value_def map_filter_single
      split: option.splits if_splits list.splits)

lemma OnMessage_loop_queue:
  "OnMessage_loop v8 env p st = (c, h', calls') \<Longrightarrow> data (ports (fst st) p) = Some d \<Longrightarrow>
     \<exists>n \<le> length (incoming_messages (port_datas (fst st) d)).
       incoming_messages (port_datas h' d) = drop n (incoming_messages (port_datas (fst st) d)) \<and>
       calls' = snd st @ List.map_filter (callback_value v8 env)
                           (take n (incoming_messages (port_datas (fst st) d)))"
proof (induction v8 env p st rule: OnMessage_loop.induct)
  case (1 v8 env p st)
  let ?q = "incoming_messages (port_datas (fst st) d)"
  obtain c1 h1 calls1 where b: "OnMessage_body v8 env p st = (c1, h1, calls1)"
    by (metis prod_cases3)
  then have b': "OnMessage_body v8 env p (fst st, snd st) = (c1, h1, calls1)" by simp
  note step = OnMessage_body_queue [OF b' "1.prems"(2)]
  have d1: "data (ports h1 p) = Some d"
    using OnMessage_body_frame(1) [OF b', of p] "1.prems"(2) by simp
  have one: "\<exists>n \<le> length ?q.
       incoming_messages (port_datas h1 d) = drop n ?q \<and>
       calls1 = snd st @ List.map_filter (callback_value v8 env) (take n ?q)"
  proof -
    from step consider
      "incoming_messages (port_datas h1 d) = ?q" "calls1 = snd st"
      | m where "?q = m # incoming_messages (port_datas h1 d)"
          "calls1 = snd st @ List.map_filter (callback_value v8 env) [m]"
      by blast
    then show ?thesis
    proof cases
      case 1
      then show ?thesis by (intro exI [of _ 0]) (simp add: List.map_filter_def)
    next
      case 2
      then show ?thesis by (intro exI [of _ 1]) simp
    qed
  qed
  show ?case
  proof (cases c1)
    case Continue
    with b "1.prems" have l: "OnMessage_loop v8 env p (h1, calls1) = (c, h', calls')"
      by (subst (asm) OnMessage_loop.simps) simp
    from step Continue obtain m where
      q: "?q = m # incoming_messages (port_datas h1 d)" and
      c1: "calls1 = snd st @ List.map_filter (callback_value v8 env) [m]"
      by blast
    from "1.IH" [OF b [symmetric] Continue l] d1 obtain n where
      n: "n \<le> length (incoming_messages (port_datas h1 d))"
         "incoming_messages (port_datas h' d) = drop n (incoming_messages (port_datas h1 d))"
         "calls' = calls1 @ List.map_filter (callback_value v8 env)
                             (take n (incoming_messages (port_datas h1 d)))"
      by auto
    have "take (Suc n) ?q = [m] @ take n (incoming_messages (port_datas h1 d))"
      by (simp add: q)
    then have "List.map_filter (callback_value v8 env) (take (Suc n) ?q) =
          List.map_filter (callback_value v8 env) [m] @
          List.map_filter (callback_value v8 env) (take n (incoming_messages (port_datas h1 d)))"
      by (simp only: map_filter_append)
    with n c1 q show ?thesis
      by (intro exI [of _ "Suc n"]) simp
  next
    case Break
    with b "1.prems" have "h' = h1" "calls' = calls1"
      by (subst (asm) OnMessage_loop.simps, simp)+
    with one show ?thesis by simp
  next
    case Return
    with b "1.prems" have "h' = h1" "calls' = calls1"
      by (subst (asm) OnMessage_loop.simps, simp)+
    with one show ?thesis by simp
  qed
qed

lemma OnMessage_entangled:
  assumes "OnMessage_loop v8 env p (h, []) = (c, h1, calls)"
    and "data (ports h p) = Some d" and "sibling (port_datas h d) \<noteq> None"
  shows "OnMessage v8 env p h = Inr (h1, calls)"
proof -
  from assms(3) obtain s where s: "sibling (port_datas h d) = Some s"
    by auto
  from OnMessage_loop_frame [OF assms(1), of p d] assms(2) s
  have "data (ports h1 p) = Some d" "sibling (port_datas h1 d) = Some s"
    by simp_all
  with assms(1) show ?thesis
    by (cases c) (simp_all add: OnMessage_def data_IsSiblingClosed_def)
qed

lemma traffic_step_fifo:
  assumes "paired a b da db h"
    and "traffic_step v8 env a b x (h, seen) = (h', seen')"
  shows "paired a b da db h' \<and>
         (\<exists>n \<le> length (incoming_messages (port_datas h db) @ posted [x]).
            incoming_messages (port_datas h' db)
              = drop n (incoming_messages (port_datas h db) @ posted [x]) \<and>
            seen' = seen @ List.map_filter (callback_value v8 env)
                             (take n (incoming_messages (port_datas h db) @ posted [x])))"
proof (cases x)
  case (Post m)
  with assms have "h' = data_AddToIncomingQueue db m h" "seen' = seen"
    by (auto simp: paired_def Send_def)
  with assms(1) Post show ?thesis
    by (intro conjI exI [of _ 0])
       (auto simp: paired_def data_AddToIncomingQueue_def Let_def List.map_filter_def
          split: option.splits)
next
  case Deliver
  obtain c h1 calls where l: "OnMessage_loop v8 env b (h, []) = (c, h1, calls)"
    by (metis prod_cases3)
  from assms(1) have d: "data (ports h b) = Some db" "sibling (port_datas h db) \<noteq> None"
    by (simp_all add: paired_def)
  from OnMessage_entangled [OF l d] assms(2) Deliver
  have e: "h' = h1" "seen' = seen @ calls" by simp_all
  from OnMessage_loop_frame [OF l] assms(1) have p: "paired a b da db h1"
    by (simp add: paired_def)
  from OnMessage_loop_queue [OF l, of db] d(1) obtain n where
    "n \<le> length (incoming_messages (port_datas h db))"
    "incoming_messages (port_datas h1 db) = drop n (incoming_messages (port_datas h db))"
    "calls = List.map_filter (callback_value v8 env) (take n (incoming_messages (port_datas h db)))"
    by auto
  with e p Deliver show ?thesis
    by (intro conjI exI [of _ n]) simp_all
next
  case Deliver_one
  obtain c h1 calls where b: "OnMessage_body v8 env b (h, seen) = (c, h1, calls)"
    by (metis prod_cases3)
  with assms(2) Deliver_one have e: "h' = h1" "seen' = calls" by simp_all
  from assms(1) have d: "data (ports h b) = Some db"
    by (simp add: paired_def)
  from OnMessage_body_frame [OF b] assms(1) have p: "paired a b da db h1"
    by (simp add: paired_def)
  from OnMessage_body_queue [OF b d] consider
    "incoming_messages (port_datas h1 db) = incoming_messages (port_datas h db)" "calls = seen"
    | m where "incoming_messages (port_datas h db) = m # incoming_messages (port_datas h1 db)"
        "calls = seen @ List.map_filter (callback_value v8 env) [m]"
    by blast
  then show ?thesis
  proof cases
    case 1
    with e p Deliver_one show ?thesis
      by (intro conjI exI [of _ 0]) (simp_all add: List.map_filter_def)
  next
    case 2
    with e p Deliver_one show ?thesis
      by (intro conjI exI [of _ 1]) simp_all
  qed
next
  case Start_receiving
  with assms show ?thesis
    by (intro conjI exI [of _ 0])
       (auto simp: paired_def Start_def Let_def List.map_filter_def split: if_splits)
next
  case Stop_receiving
  with assms show ?thesis
    by (intro conjI exI [of _ 0])
       (auto simp: paired_def Stop_def List.map_filter_def)
qed

lemma run_traffic_fifo:
  assumes "paired a b da db h" and "incoming_messages (port_datas h db) = []"
  shows "paired a b da db (fst (run_traffic v8 env a b xs (h, []))) \<and>
         (\<exists>n \<le> length (posted xs).
            incoming_messages (port_datas (fst (run_traffic v8 env a b xs (h, []))) db)
              = drop n (posted xs) \<and>
            snd (run_traffic v8 env a b xs (h, []))
              = List.map_filter (callback_value v8 env) (take n (posted xs)))"
proof (induction xs rule: rev_induct)
  case Nil
  with assms show ?case
    by (simp add: run_traffic_def List.map_filter_def)
next
  case (snoc x xs)
  let ?P = "posted xs"
  let ?px = "posted [x]"
  obtain h1 seen1 where r: "run_traffic v8 env a b xs (h, []) = (h1, seen1)"
    by (cases "run_traffic v8 env a b xs (h, [])")
  obtain h2 seen2 where t: "traffic_step v8 env a b x (h1, seen1) = (h2, seen2)"
    by (cases "traffic_step v8 env a b x (h1, seen1)")
  have r2: "run_traffic v8 env a b (xs @ [x]) (h, []) = (h2, seen2)"
    using r t by (simp add: run_traffic_def)
  from snoc.IH r obtain n where
    p1: "paired a b da db h1" and n: "n \<le> length ?P" and
    q1: "incoming_messages (port_datas h1 db) = drop n ?P" and
    s1: "seen1 = List.map_filter (callback_value v8 env) (take n ?P)"
    by auto
  from traffic_step_fifo [OF p1 t] q1 obtain k where
    p2: "paired a b da db h2" and k: "k \<le> length (drop n ?P @ ?px)" and
    q2: "incoming_messages (port_datas h2 db) = drop k (drop n ?P @ ?px)" and
    s2: "seen2 = seen1 @ List.map_filter (callback_value v8 env) (take k (drop n ?P @ ?px))"
    by auto
  have d: "drop n ?P @ ?px = drop n (?P @ ?px)"
    using n by simp
  have "drop (n + k) (?P @ ?px) = drop k (drop n ?P @ ?px)"
    unfolding d by (simp only: drop_drop add.commute)
  moreover have "take (n + k) (?P @ ?px) = take n ?P @ take k (drop n ?P @ ?px)"
  proof -
    have "take (n + k) (?P @ ?px) = take n (?P @ ?px) @ take k (drop n (?P @ ?px))"
      by (rule take_add)
    moreover have "take n (?P @ ?px) = take n ?P"
      using n by simp
    ultimately show ?thesis
      by (simp only: d)
  qed
  moreover have "n + k \<le> length (?P @ ?px)"
    using n k by simp
  ultimately show ?case
    using p2 q2 s2 s1
    by (intro conjI exI [of _ "n + k"]) (simp_all add: r2 posted_append map_filter_append)
qed

lemma run_demo_traffic:
  "snd (run_traffic demo_v8 demo_env 0 1 demo_traffic (channel_Heap, []))
     = [JSNumber 5, JSNumber 7]"
  by code_simp

text \<open>
  C8. Let \<open>a\<close> and \<open>b\<close> be entangled and the queue of \<open>b\<close> empty. After any traffic, the
  messages posted so far split into a prefix that the loop has taken off the queue and
  the rest, which is the queue, in the order posted; and the values \<^verbatim>\<open>onmessage\<close> was called
  with are those of the prefix, in the order posted. So of two messages that are both
  delivered, the one posted first is seen first. \<^verbatim>\<open>AddToIncomingQueue\<close> appends at the
  back, and \<^verbatim>\<open>Start\<close> and \<^verbatim>\<open>Stop\<close> leave the queue as it is.
\<close>

theorem delivery_in_post_order:
  assumes "data (ports h a) = Some da" and "data (ports h b) = Some db" and "da \<noteq> db"
    and "sibling (port_datas h da) = Some db" and "sibling (port_datas h db) = Some da"
    and "incoming_messages (port_datas h db) = []"
    and "run_traffic v8 env a b xs (h, []) = (h', seen)"
  shows "(\<exists>n \<le> length (posted xs).
            incoming_messages (port_datas h' db) = drop n (posted xs) \<and>
            seen = List.map_filter (callback_value v8 env) (take n (posted xs))) \<and>
         incoming_messages (port_datas (data_AddToIncomingQueue db m h) db)
           = incoming_messages (port_datas h db) @ [m] \<and>
         (\<exists>h1. Start b h = Inr h1 \<and>
               incoming_messages (port_datas h1 db) = incoming_messages (port_datas h db)) \<and>
         (\<exists>h1. Stop b h = Inr h1 \<and>
               incoming_messages (port_datas h1 db) = incoming_messages (port_datas h db))"
proof -
  have p: "paired a b da db h"
    using assms(1-5) by (simp add: paired_def)
  from run_traffic_fifo [OF p assms(6), of v8 env xs] assms(7)
  have "\<exists>n \<le> length (posted xs).
            incoming_messages (port_datas h' db) = drop n (posted xs) \<and>
            seen = List.map_filter (callback_value v8 env) (take n (posted xs))"
    by simp
  moreover have "incoming_messages (port_datas (data_AddToIncomingQueue db m h) db)
           = incoming_messages (port_datas h db) @ [m]"
    by (simp add: data_AddToIncomingQueue_def Let_def split: option.splits)
  moreover have "\<exists>h1. Start b h = Inr h1 \<and>
               incoming_messages (port_datas h1 db) = incoming_messages (port_datas h db)"
    using assms(2) by (simp add: Start_def Let_def)
  moreover have "\<exists>h1. Stop b h = Inr h1 \<and>
               incoming_messages (port_datas h1 db) = incoming_messages (port_datas h db)"
    using assms(2) by (simp add: Stop_def)
  ultimately show ?thesis by blast
qed

theorem delivery_in_post_order_witness:
  "data (ports channel_Heap 0) = Some 0 \<and> data (ports channel_Heap 1) = Some 1 \<and>
   sibling (port_datas channel_Heap 0) = Some 1 \<and>
   sibling (port_datas channel_Heap 1) = Some 0 \<and>
   incoming_messages (port_datas channel_Heap 1) = [] \<and>
   posted demo_traffic = [number_Message 5, number_Message 7] \<and>
   snd (run_traffic demo_v8 demo_env 0 1 demo_traffic (channel_Heap, []))
     = [JSNumber 5, JSNumber 7] \<and>
   (\<exists>n \<le> 2.
      incoming_messages
        (port_datas (fst (run_traffic demo_v8 demo_env 0 1 demo_traffic (channel_Heap, []))) 1)
        = drop n [number_Message 5, number_Message 7] \<and>
      [JSNumber 5, JSNumber 7]
        = List.map_filter (callback_value demo_v8 demo_env)
            (take n [number_Message 5, number_Message 7]))"
proof -
  have c: "data (ports channel_Heap 0) = Some 0" "data (ports channel_Heap 1) = Some 1"
    "(0::nat) \<noteq> 1"
    "sibling (port_datas channel_Heap 0) = Some 1" "sibling (port_datas channel_Heap 1) = Some 0"
    "incoming_messages (port_datas channel_Heap 1) = []"
    by (simp_all add: channel_Heap_def)
  have p: "posted demo_traffic = [number_Message 5, number_Message 7]"
    by (simp add: demo_traffic_def)
  have r: "run_traffic demo_v8 demo_env 0 1 demo_traffic (channel_Heap, [])
             = (fst (run_traffic demo_v8 demo_env 0 1 demo_traffic (channel_Heap, [])),
                [JSNumber 5, JSNumber 7])"
    using run_demo_traffic by (simp add: prod_eq_iff)
  from delivery_in_post_order [OF c r, of empty_Message]
  have "\<exists>n \<le> length (posted demo_traffic).
      incoming_messages
        (port_datas (fst (run_traffic demo_v8 demo_env 0 1 demo_traffic (channel_Heap, []))) 1)
        = drop n (posted demo_traffic) \<and>
      [JSNumber 5, JSNumber 7]
        = List.map_filter (callback_value demo_v8 demo_env) (take n (posted demo_traffic))"
    by blast
  with c p run_demo_traffic show ?thesis
    by (simp add: numeral_2_eq_2)
qed

end
